theory Spec2Isabelle
  imports Main
begin

section \<open>JavaScript values and errors\<close>

text \<open>
  The only exception the modelled code raises itself is a \<open>TypeError\<close>: thrown by
  \<open>showDialog\<close> on missing content, and raised by the engine when a property of
  \<open>null\<close> or \<open>undefined\<close> is read.
\<close>

datatype js_error = TypeError

text \<open>
  The component values of a turtle: a string, or one of the two empty values of
  JavaScript, which the validator tells apart from strings and from each other.
\<close>

datatype jsval = JUndefined | JNull | JStr string

text \<open>Truthiness, as \<open>!x\<close> and \<open>x ? a : b\<close> read it: the empty string is falsy.\<close>

fun truthy :: "jsval \<Rightarrow> bool" where
  "truthy JUndefined = False"
| "truthy JNull = False"
| "truthy (JStr s) = (s \<noteq> [])"

text \<open>The loose comparison \<open>x == undefined\<close>: true of \<open>undefined\<close> and of \<open>null\<close>.\<close>

fun eq_undefined :: "jsval \<Rightarrow> bool" where
  "eq_undefined JUndefined = True"
| "eq_undefined JNull = True"
| "eq_undefined (JStr s) = False"

section \<open>The turtle field (field_turtle.js)\<close>

record tvalue =
  pattern :: jsval
  hat :: jsval
  turtleName :: jsval

definition PATTERNS :: "string list" where
  "PATTERNS = [''Dots'', ''Stripes'', ''Hexagons'']"

definition HATS :: "string list" where
  "HATS = [''Stovepipe'', ''Crown'', ''Propeller'', ''Mask'', ''Fedora'']"

definition NAMES :: "string list" where
  "NAMES = [''Yertle'', ''Franklin'', ''Crush'', ''Leonardo'', ''Bowser'', ''Squirtle'',
            ''Oogway'']"

text \<open>
  \<open>Array.prototype.indexOf\<close> on an array of strings: the first index holding a
  strictly equal element, or \<open>-1\<close>. No string is strictly equal to \<open>null\<close> or
  \<open>undefined\<close>.
\<close>

fun indexOf_from :: "string list \<Rightarrow> string \<Rightarrow> int \<Rightarrow> int" where
  "indexOf_from [] s k = -1"
| "indexOf_from (x # xs) s k = (if x = s then k else indexOf_from xs s (k + 1))"

fun indexOf :: "string list \<Rightarrow> jsval \<Rightarrow> int" where
  "indexOf xs (JStr s) = indexOf_from xs s 0"
| "indexOf xs JUndefined = -1"
| "indexOf xs JNull = -1"

text \<open>\<open>array[i]\<close>: reading outside the array gives \<open>undefined\<close>.\<close>

definition array_at :: "string list \<Rightarrow> int \<Rightarrow> jsval" where
  "array_at xs i = (if 0 \<le> i \<and> i < int (length xs) then JStr (xs ! nat i) else JUndefined)"

datatype component = Pattern | Hat | TurtleName

fun get_component :: "component \<Rightarrow> tvalue \<Rightarrow> jsval" where
  "get_component Pattern v = pattern v"
| "get_component Hat v = hat v"
| "get_component TurtleName v = turtleName v"

fun set_component :: "component \<Rightarrow> jsval \<Rightarrow> tvalue \<Rightarrow> tvalue" where
  "set_component Pattern x v = v\<lparr>pattern := x\<rparr>"
| "set_component Hat x v = v\<lparr>hat := x\<rparr>"
| "set_component TurtleName x v = v\<lparr>turtleName := x\<rparr>"

text \<open>The object literal \<open>{}\<close>: every property reads \<open>undefined\<close>.\<close>

definition empty_value :: tvalue where
  "empty_value = \<lparr>pattern = JUndefined, hat = JUndefined, turtleName = JUndefined\<rparr>"

text \<open>
  Values of the field are objects, and the field keeps references to them: the
  validator writes into the object it is given, and \<open>doValueUpdate_\<close> and
  \<open>doValueInvalid_\<close> keep that very object. So objects live in a store, addressed by
  references; \<open>next_ref\<close> is the address that the next object literal gets.
  \<open>stored_value\<close> is \<open>this.value_\<close>; an absent object (\<open>undefined\<close>) is \<open>None\<close>.
\<close>

type_synonym ref = nat

record turtle_field =
  objects :: "ref \<Rightarrow> tvalue"
  next_ref :: ref
  stored_value :: "ref option"
  displayValue :: "ref option"
  cachedValidatedValue :: "ref option"
  isDirty :: bool
  isValueInvalid :: bool

text \<open>\<open>object[variable] = x\<close>: a write into the store.\<close>

definition set_property :: "ref \<Rightarrow> component \<Rightarrow> jsval \<Rightarrow> turtle_field \<Rightarrow> turtle_field" where
  "set_property r variable x f =
    f\<lparr>objects := (objects f)(r := set_component variable x (objects f r))\<rparr>"

text \<open>\<open>this.displayValue_ && this.displayValue_.x\<close>: \<open>undefined\<close> when there is no display value.\<close>

definition display_component :: "turtle_field \<Rightarrow> component \<Rightarrow> jsval" where
  "display_component f variable =
    (case displayValue f of
       None \<Rightarrow> JUndefined
     | Some d \<Rightarrow> get_component variable (objects f d))"

text \<open>
  One of the three blocks of \<open>doClassValidation_\<close>: it reads one property of
  \<open>newValue\<close> and, in two of its three cases, writes that property of the same object.
\<close>

definition validate_component ::
  "component \<Rightarrow> string list \<Rightarrow> ref \<Rightarrow> turtle_field \<Rightarrow> turtle_field" where
  "validate_component variable allowed newValue f =
    (if eq_undefined (get_component variable (objects f newValue))
     then set_property newValue variable (display_component f variable) f
     else if indexOf allowed (get_component variable (objects f newValue)) = -1
     then set_property newValue variable JNull f
     else f)"

text \<open>
  \<open>doClassValidation_\<close>: the three blocks in the order of the source, the object
  cached, and the result: \<open>None\<close> for \<open>null\<close>, or the reference it was given.
\<close>

definition doClassValidation :: "ref \<Rightarrow> turtle_field \<Rightarrow> ref option \<times> turtle_field" where
  "doClassValidation newValue f =
    (let f1 = validate_component Pattern PATTERNS newValue f;
         f2 = validate_component Hat HATS newValue f1;
         f3 = validate_component TurtleName NAMES newValue f2;
         f4 = f3\<lparr>cachedValidatedValue := Some newValue\<rparr>;
         nv = objects f4 newValue
     in if \<not> truthy (pattern nv) \<or> \<not> truthy (hat nv) \<or> \<not> truthy (turtleName nv)
        then (None, f4)
        else (Some newValue, f4))"

text \<open>
  \<open>doValueUpdate_\<close>: the inherited method stores the value and marks the field
  dirty (as the comment in the source says), then the display value follows.
\<close>

definition doValueUpdate :: "ref \<Rightarrow> turtle_field \<Rightarrow> turtle_field" where
  "doValueUpdate newValue f =
    f\<lparr>stored_value := Some newValue, isDirty := True,
      displayValue := Some newValue, isValueInvalid := False\<rparr>"

definition doValueInvalid :: "ref \<Rightarrow> turtle_field \<Rightarrow> turtle_field" where
  "doValueInvalid invalidValue f =
    f\<lparr>displayValue := Some invalidValue, isDirty := True, isValueInvalid := True\<rparr>"

text \<open>
  Modelled from the spec: \<open>Blockly.Field.setValue\<close> is not among the sources, and
  the spec does not describe it. The comments of field_turtle.js (on
  \<open>doClassValidation_\<close>, \<open>doValueUpdate_\<close> and \<open>doValueInvalid_\<close>, each "called by
  the setValue function") give its protocol, for a field with no local validator:
  the class validator runs first; on \<open>null\<close> the object it was given goes to
  \<open>doValueInvalid_\<close> and nothing is stored; otherwise the validated object goes to
  \<open>doValueUpdate_\<close>.
\<close>

definition setValue :: "ref \<Rightarrow> turtle_field \<Rightarrow> turtle_field" where
  "setValue newValue f =
    (case doClassValidation newValue f of
       (None, f') \<Rightarrow> doValueInvalid newValue f'
     | (Some v, f') \<Rightarrow> doValueUpdate v f')"

text \<open>The index arithmetic of the function that \<open>createArrowListener\<close> returns.\<close>

definition arrow_index :: "string list \<Rightarrow> jsval \<Rightarrow> int \<Rightarrow> int" where
  "arrow_index array cur direction =
    (let currentIndex = indexOf array cur + direction
     in if currentIndex \<le> -1 then int (length array) - 1
        else if currentIndex \<ge> int (length array) then 0
        else currentIndex)"

text \<open>
  The contents of the object that the listener builds: \<open>{}\<close> with one property set,
  computed from the contents \<open>d\<close> of the displayed object.
\<close>

definition arrow_value :: "component \<Rightarrow> string list \<Rightarrow> int \<Rightarrow> tvalue \<Rightarrow> tvalue" where
  "arrow_value variable array direction d =
    set_component variable
      (array_at array (arrow_index array (get_component variable d) direction)) empty_value"

text \<open>
  The listener itself: it builds that object at a new address and hands it to
  \<open>setValue\<close>. Reading \<open>this.displayValue_[variable]\<close> with no display value is a
  \<open>TypeError\<close>.
\<close>

definition createArrowListener ::
  "component \<Rightarrow> string list \<Rightarrow> int \<Rightarrow> turtle_field \<Rightarrow> js_error + turtle_field" where
  "createArrowListener variable array direction f =
    (case displayValue f of
       None \<Rightarrow> Inl TypeError
     | Some d \<Rightarrow>
         let r = next_ref f;
             f1 = f\<lparr>objects := (objects f)(r := arrow_value variable array direction (objects f d)),
                    next_ref := Suc r\<rparr>
         in Inr (setValue r f1))"

text \<open>The six arrow listeners that \<open>dropdownCreate_\<close> binds, in the order of the source.\<close>

definition dropdown_arrows :: "(component \<times> string list \<times> int) list" where
  "dropdown_arrows =
    [(Pattern, PATTERNS, -1), (Pattern, PATTERNS, 1),
     (Hat, HATS, -1), (Hat, HATS, 1),
     (TurtleName, NAMES, -1), (TurtleName, NAMES, 1)]"



text \<open>
  A turtle field holding a valid turtle (object 0), and three objects of a caller:
  object 1 with a \<open>null\<close> pattern, object 2 with a pattern that is not in the list,
  object 3 that names a hat only.
\<close>

definition example_turtle :: turtle_field where
  "example_turtle =
    \<lparr>objects = (\<lambda>r.
        if r = 0 then \<lparr>pattern = JStr ''Dots'', hat = JStr ''Stovepipe'',
                        turtleName = JStr ''Yertle''\<rparr>
        else if r = 1 then \<lparr>pattern = JNull, hat = JStr ''Crown'', turtleName = JStr ''Yertle''\<rparr>
        else if r = 2 then \<lparr>pattern = JStr ''Plaid'', hat = JUndefined, turtleName = JNull\<rparr>
        else if r = 3 then \<lparr>pattern = JUndefined, hat = JStr ''Crown'',
                             turtleName = JUndefined\<rparr>
        else empty_value),
     next_ref = 4,
     stored_value = Some 0, displayValue = Some 0,
     cachedValidatedValue = None, isDirty = False, isValueInvalid = False\<rparr>"

text \<open>
  The same field after its caller has written a hat that is not in the list into the
  object that the field holds.
\<close>

definition reused_turtle :: turtle_field where
  "reused_turtle = set_property 0 Hat (JStr ''Bogus'') example_turtle"

section \<open>The dialog manager (BlocklyDialogs)\<close>

subsection \<open>The page\<close>

text \<open>
  Page elements that callers hand to the dialog manager (content, origin, the buttons
  inside content) are numbered. The children of the dialog container and of the
  document body are either such elements or the drag header that \<open>showDialog\<close>
  creates. The container itself, its shadow and its animated border are assumed to
  exist on the page, and are never content.
\<close>

type_synonym elem = nat

datatype node = Header | El elem

datatype target = Document | Body | Node node

text \<open>The functions of the module that are registered as event listeners.\<close>

datatype handler =
  HideDialog | DialogMouseDown | DialogMouseMove | DialogUnbindDragEvents
  | DialogKeyDown | AbortKeyDown | IndexPage

text \<open>
  A registered listener: target, event name, function, capture flag. The same tuple
  is the binding data that \<open>Blockly.browserEvents.bind\<close> returns.
\<close>

type_synonym binding = "target \<times> string \<times> handler \<times> bool"

text \<open>
  The dispose functions: the two that this module passes itself
  (\<open>stopDialogKeyDown\<close> from \<open>storageAlert\<close>, the anonymous function of
  \<open>abortOffer\<close>), and functions of callers, which are numbered and of which only
  the call is recorded.
\<close>

datatype callback = StopDialogKeyDown | AbortDispose | Caller nat

record bbox =
  box_x :: int
  box_y :: int
  box_height :: int
  box_width :: int

text \<open>What \<open>setTimeout\<close> is given: the closures of the module, with what they capture.\<close>

datatype task =
  ShowEndResult elem
  | HideEndResult
  | BorderChange bbox string
  | AbortOfferTask

text \<open>Calls that leave the module or attach nodes, in the order they happen.\<close>

datatype event =
  Invoked callback
  | HideChaff
  | Blur elem
  | Focus elem
  | StopPropagation
  | PreventDefault
  | IndexPageCalled
  | AppendedToDialog node
  | AppendedToBody node
  | RemovedHeader

record dstate =
  isDialogVisible :: bool
  dialogOrigin :: "elem option"
  dialogDispose :: "callback option"
  dialogMouseDownWrapper :: "binding option"
  dialogMouseUpWrapper :: "binding option"
  dialogMouseMoveWrapper :: "binding option"
  dialogStartX :: int
  dialogStartY :: int
  dialog_children :: "node list"
  body_children :: "node list"
  classes :: "node \<Rightarrow> string list"
  descendants :: "elem \<Rightarrow> elem list"
  tagName :: "elem \<Rightarrow> string"
  listeners :: "binding list"
  dialog_style :: "string \<rightharpoonup> string"
  shadow_style :: "string \<rightharpoonup> string"
  border_style :: "string \<rightharpoonup> string"
  border_className :: string
  timers :: "(nat \<times> task) list"
  trace :: "event list"

text \<open>
  What the browser and the host application report when asked: layout, the main
  workspace, stored progress, elements by id. None of it is computed by the module, so
  every operation takes the readings of the moment as a parameter.
\<close>

datatype measured = Dialog | Page elem

record geometry =
  offsetLeft :: int
  offsetTop :: int
  offsetWidth :: int
  offsetHeight :: int
  pageOffset :: "int \<times> int"
  svgBBox :: "(int \<times> int) option"

record env =
  innerWidth :: int
  innerHeight :: int
  geom :: "measured \<Rightarrow> geometry"
  mainWorkspace :: bool
  levelStored :: jsval
  workspaceDragging :: "bool option"
  elementById :: "string \<rightharpoonup> elem"

record js_event =
  clientX :: int
  clientY :: int
  rightButton :: bool
  keyCode :: "nat option"

subsection \<open>Numbers as text\<close>

text \<open>\<open>n + 'px'\<close> for an integer \<open>n\<close>: its decimal digits, then the unit.\<close>

fun digits :: "nat \<Rightarrow> string" where
  "digits n = (if n < 10 then [char_of (48 + n)]
               else digits (n div 10) @ [char_of (48 + n mod 10)])"

declare digits.simps [simp del]

definition px :: "int \<Rightarrow> string" where
  "px i = (if i < 0 then CHR ''-'' # digits (nat (- i)) else digits (nat i)) @ ''px''"

subsection \<open>Listeners, classes, timers\<close>

definition record_event :: "event \<Rightarrow> dstate \<Rightarrow> dstate" where
  "record_event ev s = s\<lparr>trace := trace s @ [ev]\<rparr>"

text \<open>\<open>addEventListener\<close>: a listener already registered is not registered twice.\<close>

definition addEventListener :: "target \<Rightarrow> string \<Rightarrow> handler \<Rightarrow> bool \<Rightarrow> dstate \<Rightarrow> dstate" where
  "addEventListener t name h capture s =
    (if (t, name, h, capture) \<in> set (listeners s) then s
     else s\<lparr>listeners := listeners s @ [(t, name, h, capture)]\<rparr>)"

definition removeEventListener :: "target \<Rightarrow> string \<Rightarrow> handler \<Rightarrow> bool \<Rightarrow> dstate \<Rightarrow> dstate" where
  "removeEventListener t name h capture s =
    s\<lparr>listeners := removeAll (t, name, h, capture) (listeners s)\<rparr>"

text \<open>
  \<open>Blockly.browserEvents.bind\<close> wraps the function anew at every call, so it always
  registers, and \<open>unbind\<close> takes one registration away.
\<close>

definition bind_event :: "target \<Rightarrow> string \<Rightarrow> handler \<Rightarrow> dstate \<Rightarrow> dstate" where
  "bind_event t name h s = s\<lparr>listeners := listeners s @ [(t, name, h, False)]\<rparr>"

definition unbind :: "binding \<Rightarrow> dstate \<Rightarrow> dstate" where
  "unbind b s = s\<lparr>listeners := remove1 b (listeners s)\<rparr>"

definition has_class :: "dstate \<Rightarrow> string \<Rightarrow> node \<Rightarrow> bool" where
  "has_class s c n = (c \<in> set (classes s n))"

definition classList_add :: "node \<Rightarrow> string \<Rightarrow> dstate \<Rightarrow> dstate" where
  "classList_add n c s =
    (if has_class s c n then s else s\<lparr>classes := (classes s)(n := classes s n @ [c])\<rparr>)"

definition classList_remove :: "node \<Rightarrow> string \<Rightarrow> dstate \<Rightarrow> dstate" where
  "classList_remove n c s = s\<lparr>classes := (classes s)(n := removeAll c (classes s n))\<rparr>"

text \<open>The elements below \<open>content\<close> with a class or a tag, in document order.\<close>

definition getElementsByClassName :: "dstate \<Rightarrow> elem \<Rightarrow> string \<Rightarrow> elem list" where
  "getElementsByClassName s content c = filter (\<lambda>e. has_class s c (El e)) (descendants s content)"

definition getElementsByTagName :: "dstate \<Rightarrow> elem \<Rightarrow> string \<Rightarrow> elem list" where
  "getElementsByTagName s content t = filter (\<lambda>e. tagName s e = t) (descendants s content)"

definition setTimeout :: "task \<Rightarrow> nat \<Rightarrow> dstate \<Rightarrow> dstate" where
  "setTimeout t delay s = s\<lparr>timers := timers s @ [(delay, t)]\<rparr>"


subsection \<open>Drag of the dialog\<close>

definition dialogUnbindDragEvents :: "dstate \<Rightarrow> dstate" where
  "dialogUnbindDragEvents s =
    (let s1 = (case dialogMouseUpWrapper s of
                 Some b \<Rightarrow> (unbind b s)\<lparr>dialogMouseUpWrapper := None\<rparr>
               | None \<Rightarrow> s);
         s2 = (case dialogMouseMoveWrapper s1 of
                 Some b \<Rightarrow> (unbind b s1)\<lparr>dialogMouseMoveWrapper := None\<rparr>
               | None \<Rightarrow> s1)
     in s2)"

definition dialogMouseDown :: "env \<Rightarrow> js_event \<Rightarrow> dstate \<Rightarrow> dstate" where
  "dialogMouseDown en e s =
    (let s1 = dialogUnbindDragEvents s
     in if rightButton e then s1
        else
          let s2 = s1\<lparr>dialogStartX := offsetLeft (geom en Dialog) - clientX e,
                      dialogStartY := offsetTop (geom en Dialog) - clientY e\<rparr>;
              s3 = (bind_event Document ''mouseup'' DialogUnbindDragEvents s2)
                     \<lparr>dialogMouseUpWrapper :=
                        Some (Document, ''mouseup'', DialogUnbindDragEvents, False)\<rparr>;
              s4 = (bind_event Document ''mousemove'' DialogMouseMove s3)
                     \<lparr>dialogMouseMoveWrapper :=
                        Some (Document, ''mousemove'', DialogMouseMove, False)\<rparr>
          in record_event StopPropagation s4)"

definition dialogMouseMove :: "env \<Rightarrow> js_event \<Rightarrow> dstate \<Rightarrow> dstate" where
  "dialogMouseMove en e s =
    (let dialogLeft = dialogStartX s + clientX e;
         dialogTop = dialogStartY s + clientY e;
         dialogTop = max dialogTop 0;
         dialogTop = min dialogTop (innerHeight en - offsetHeight (geom en Dialog));
         dialogLeft = max dialogLeft 0;
         dialogLeft = min dialogLeft (innerWidth en - offsetWidth (geom en Dialog))
     in s\<lparr>dialog_style := (dialog_style s)(''left'' \<mapsto> px dialogLeft, ''top'' \<mapsto> px dialogTop)\<rparr>)"

subsection \<open>The animated border\<close>

definition getBBox :: "env \<Rightarrow> measured \<Rightarrow> bbox" where
  "getBBox en element =
    (let xy = pageOffset (geom en element)
     in case svgBBox (geom en element) of
          Some (w, h) \<Rightarrow> \<lparr>box_x = fst xy, box_y = snd xy, box_height = h, box_width = w\<rparr>
        | None \<Rightarrow> \<lparr>box_x = fst xy, box_y = snd xy,
                     box_height = offsetHeight (geom en element),
                     box_width = offsetWidth (geom en element)\<rparr>)"

text \<open>The inner function \<open>change\<close> of \<open>matchBorder_\<close>.\<close>

definition border_change :: "bbox \<Rightarrow> string \<Rightarrow> dstate \<Rightarrow> dstate" where
  "border_change bBox opacity s =
    s\<lparr>border_style := (border_style s)
        (''width'' \<mapsto> px (box_width bBox), ''height'' \<mapsto> px (box_height bBox),
         ''left'' \<mapsto> px (box_x bBox), ''top'' \<mapsto> px (box_y bBox),
         ''opacity'' \<mapsto> opacity)\<rparr>"

definition matchBorder :: "env \<Rightarrow> measured option \<Rightarrow> bool \<Rightarrow> string \<Rightarrow> dstate \<Rightarrow> dstate" where
  "matchBorder en element animate opacity s =
    (case element of
       None \<Rightarrow> s
     | Some el \<Rightarrow>
         let bBox = getBBox en el;
             s1 = (if animate
                   then setTimeout (BorderChange bBox opacity) 1
                          (s\<lparr>border_className := ''dialogAnimate''\<rparr>)
                   else border_change bBox opacity (s\<lparr>border_className := []\<rparr>))
         in s1\<lparr>border_style := (border_style s1)(''visibility'' \<mapsto> ''visible'')\<rparr>)"

subsection \<open>Hiding\<close>

definition stopDialogKeyDown :: "dstate \<Rightarrow> dstate" where
  "stopDialogKeyDown s = removeEventListener Body ''keydown'' DialogKeyDown True s"

definition startDialogKeyDown :: "dstate \<Rightarrow> dstate" where
  "startDialogKeyDown s = addEventListener Body ''keydown'' DialogKeyDown True s"

text \<open>Calling a dispose function.\<close>

fun invoke :: "callback \<Rightarrow> dstate \<Rightarrow> dstate" where
  "invoke StopDialogKeyDown s = stopDialogKeyDown (record_event (Invoked StopDialogKeyDown) s)"
| "invoke AbortDispose s =
     removeEventListener Body ''keydown'' AbortKeyDown True (record_event (Invoked AbortDispose) s)"
| "invoke (Caller k) s = record_event (Invoked (Caller k)) s"

text \<open>The inner function \<open>endResult\<close> of \<open>hideDialog\<close>.\<close>

definition hide_endResult :: "dstate \<Rightarrow> dstate" where
  "hide_endResult s =
    s\<lparr>shadow_style := (shadow_style s)(''zIndex'' \<mapsto> ''-1'', ''visibility'' \<mapsto> ''hidden''),
      border_style := (border_style s)(''visibility'' \<mapsto> ''hidden'')\<rparr>"

text \<open>
  \<open>getElementById('dialogHeader')\<close> followed by the removal from its parent: the
  header is looked for in the dialog container, then among the children of the body.
\<close>

definition remove_header :: "dstate \<Rightarrow> dstate" where
  "remove_header s =
    (if Header \<in> set (dialog_children s)
     then record_event RemovedHeader (s\<lparr>dialog_children := remove1 Header (dialog_children s)\<rparr>)
     else if Header \<in> set (body_children s)
     then record_event RemovedHeader (s\<lparr>body_children := remove1 Header (body_children s)\<rparr>)
     else s)"

text \<open>
  The loop \<open>while (dialog.firstChild)\<close>: the first child is marked hidden and moved
  to the end of the body.
\<close>

function move_children :: "dstate \<Rightarrow> dstate" where
  "move_children s =
    (case dialog_children s of
       [] \<Rightarrow> s
     | content # rest \<Rightarrow>
         move_children
           (record_event (AppendedToBody content)
             ((classList_add content ''dialogHiddenContent'' s)
                \<lparr>dialog_children := rest,
                  body_children := removeAll content (body_children s) @ [content]\<rparr>)))"
  by pat_completeness auto
termination
  by (relation "measure (\<lambda>s. length (dialog_children s))")
     (auto simp: record_event_def classList_add_def)

text \<open>
  \<open>hideDialog\<close> in two parts: the statements up to the clearing of the dispose
  function (bindings released, flag flipped, dispose function called and cleared), and
  the statements after it, which touch the page.
\<close>

definition hide_release :: "dstate \<Rightarrow> dstate" where
  "hide_release s =
    (let s1 = dialogUnbindDragEvents s;
         s2 = (case dialogMouseDownWrapper s1 of
                 Some b \<Rightarrow> (unbind b s1)\<lparr>dialogMouseDownWrapper := None\<rparr>
               | None \<Rightarrow> s1);
         s3 = s2\<lparr>isDialogVisible := False\<rparr>;
         s4 = (case dialogDispose s3 of Some f \<Rightarrow> invoke f s3 | None \<Rightarrow> s3)
     in s4\<lparr>dialogDispose := None\<rparr>)"

definition hide_page :: "env \<Rightarrow> bool \<Rightarrow> dstate \<Rightarrow> dstate" where
  "hide_page en opt_animate s =
    (let origin = (if opt_animate then dialogOrigin s else None);
         s1 = s\<lparr>shadow_style := (shadow_style s)(''opacity'' \<mapsto> ''0'')\<rparr>;
         s2 = (case origin of
                 Some el \<Rightarrow>
                   setTimeout HideEndResult 175
                     (matchBorder en (Some (Page el)) True ''0.2''
                       (matchBorder en (Some Dialog) False ''0.8'' s1))
               | None \<Rightarrow> hide_endResult s1);
         s3 = s2\<lparr>dialog_style := (dialog_style s2)(''visibility'' \<mapsto> ''hidden'', ''zIndex'' \<mapsto> ''-1'')\<rparr>;
         s4 = remove_header s3
     in move_children s4)"

definition hideDialog :: "env \<Rightarrow> bool \<Rightarrow> dstate \<Rightarrow> dstate" where
  "hideDialog en opt_animate s =
    (if \<not> isDialogVisible s then s else hide_page en opt_animate (hide_release s))"


subsection \<open>Showing\<close>

text \<open>
  The loop over the live collection \<open>buttons\<close>: its first element is wired and
  loses the marker class, which takes it out of the collection.
\<close>

function wire_buttons :: "elem \<Rightarrow> dstate \<Rightarrow> dstate" where
  "wire_buttons content s =
    (case getElementsByClassName s content ''addHideHandler'' of
       [] \<Rightarrow> s
     | button # _ \<Rightarrow>
         wire_buttons content
           (classList_remove (El button) ''addHideHandler''
             (addEventListener (Node (El button)) ''touchend'' HideDialog True
               (addEventListener (Node (El button)) ''click'' HideDialog True s))))"
  by pat_completeness auto
termination
proof (relation "measure (\<lambda>(c, s). length (getElementsByClassName s c ''addHideHandler''))",
    goal_cases)
  case 1
  show ?case by simp
next
  case (2 content s button rest)
  let ?P = "\<lambda>e. has_class s ''addHideHandler'' (El e)"
  let ?s' = "classList_remove (El button) ''addHideHandler''
               (addEventListener (Node (El button)) ''touchend'' HideDialog True
                 (addEventListener (Node (El button)) ''click'' HideDialog True s))"
  have d: "descendants ?s' = descendants s"
    by (simp add: classList_remove_def addEventListener_def)
  have c: "\<And>e. has_class ?s' ''addHideHandler'' (El e) = (?P e \<and> e \<noteq> button)"
    by (auto simp: has_class_def classList_remove_def addEventListener_def)
  have "button \<in> set (filter ?P (descendants s content))"
    using 2 by (simp add: getElementsByClassName_def)
  then have "length (filter (\<lambda>e. e \<noteq> button) (filter ?P (descendants s content)))
               < length (filter ?P (descendants s content))"
    by (intro length_filter_less) auto
  moreover have "getElementsByClassName ?s' content ''addHideHandler''
                   = filter (\<lambda>e. e \<noteq> button) (filter ?P (descendants s content))"
    by (simp add: getElementsByClassName_def d c conj_commute)
  ultimately show ?case
    by (simp add: getElementsByClassName_def)
qed

text \<open>
  The inner function \<open>endResult\<close> of \<open>showDialog\<close>; it closes over \<open>content\<close>.
\<close>

definition show_endResult :: "elem \<Rightarrow> dstate \<Rightarrow> dstate" where
  "show_endResult content s =
    (if \<not> isDialogVisible s then s
     else
       let s1 = s\<lparr>dialog_style := (dialog_style s)(''visibility'' \<mapsto> ''visible'', ''zIndex'' \<mapsto> ''10''),
                  border_style := (border_style s)(''visibility'' \<mapsto> ''hidden'')\<rparr>;
           buttons = getElementsByClassName s1 content ''primary'';
           buttons = (if buttons = []
                      then (let buttons = getElementsByClassName s1 content ''secondary''
                            in if buttons = [] then getElementsByTagName s1 content ''button''
                               else buttons)
                      else buttons)
       in case buttons of [] \<Rightarrow> s1 | b # _ \<Rightarrow> record_event (Focus b) s1)"

text \<open>\<open>for (const name in style) dialog.style[name] = style[name]\<close>.\<close>

fun copy_styles :: "(string \<times> string) list \<Rightarrow> dstate \<Rightarrow> dstate" where
  "copy_styles [] s = s"
| "copy_styles ((name, v) # rest) s =
     copy_styles rest (s\<lparr>dialog_style := (dialog_style s)(name \<mapsto> v)\<rparr>)"

text \<open>
  \<open>dialog.appendChild(content)\<close>: a node has one parent, so content leaves the place
  it had.
\<close>

definition append_content :: "elem \<Rightarrow> dstate \<Rightarrow> dstate" where
  "append_content content s =
    record_event (AppendedToDialog (El content))
      (s\<lparr>dialog_children := removeAll (El content) (dialog_children s) @ [El content],
         body_children := removeAll (El content) (body_children s)\<rparr>)"

text \<open>
  \<open>showDialog\<close> after the forced hide, in two parts. First the statements that
  set the state of the new dialog and build it: flags, styles, backdrop and header
  for a modal dialog, content attached.
\<close>

definition show_attach ::
  "env \<Rightarrow> elem \<Rightarrow> elem option \<Rightarrow> bool \<Rightarrow> (string \<times> string) list \<Rightarrow> callback option
     \<Rightarrow> dstate \<Rightarrow> dstate" where
  "show_attach en c origin modal style disposeFunc s =
    (let s3 = (if mainWorkspace en then record_event HideChaff s else s);
         s4 = s3\<lparr>isDialogVisible := True, dialogOrigin := origin,
                  dialogDispose := disposeFunc\<rparr>;
         s5 = copy_styles style s4;
         s6 = (if modal
               then
                 let s' = s5\<lparr>shadow_style := (shadow_style s5)
                              (''visibility'' \<mapsto> ''visible'', ''opacity'' \<mapsto> ''0.3'',
                               ''zIndex'' \<mapsto> ''9'')\<rparr>;
                     s' = record_event (AppendedToDialog Header)
                            (s'\<lparr>dialog_children := dialog_children s' @ [Header]\<rparr>)
                 in (bind_event (Node Header) ''mousedown'' DialogMouseDown s')
                      \<lparr>dialogMouseDownWrapper :=
                         Some (Node Header, ''mousedown'', DialogMouseDown, False)\<rparr>
               else s5)
     in classList_remove (El c) ''dialogHiddenContent'' (append_content c s6))"

text \<open>
  Then the statements after the definition of \<open>endResult\<close>: the origin loses focus
  (a failure of \<open>blur\<close> is caught), and the dialog becomes visible at once or after
  the animation.
\<close>

definition show_finish :: "env \<Rightarrow> elem \<Rightarrow> elem option \<Rightarrow> bool \<Rightarrow> dstate \<Rightarrow> dstate" where
  "show_finish en c origin animate s =
    (let s8 = (case origin of Some el \<Rightarrow> record_event (Blur el) s | None \<Rightarrow> s)
     in if animate \<and> origin \<noteq> None
        then setTimeout (ShowEndResult c) 175
               (matchBorder en (Some Dialog) True ''0.8''
                 (matchBorder en (map_option Page origin) False ''0.2'' s8))
        else show_endResult c s8)"

text \<open>
  \<open>showDialog\<close>. The result pairs the exception thrown, if any, with the state the
  call leaves behind.
\<close>

definition showDialog ::
  "env \<Rightarrow> elem option \<Rightarrow> elem option \<Rightarrow> bool \<Rightarrow> bool \<Rightarrow> (string \<times> string) list
     \<Rightarrow> callback option \<Rightarrow> dstate \<Rightarrow> js_error option \<times> dstate" where
  "showDialog en content origin animate modal style disposeFunc s =
    (case content of
       None \<Rightarrow> (Some TypeError, s)
     | Some c \<Rightarrow>
         let s1 = wire_buttons c s;
             s2 = (if isDialogVisible s1 then hideDialog en False s1 else s1)
         in (None, show_finish en c origin animate
                     (show_attach en c origin modal style disposeFunc s2)))"

subsection \<open>Keyboard, the abort offer, timers and dispatch\<close>

definition dialogKeyDown :: "env \<Rightarrow> js_event \<Rightarrow> dstate \<Rightarrow> dstate" where
  "dialogKeyDown en e s =
    (if isDialogVisible s
     then (if keyCode e = Some 13 \<or> keyCode e = Some 27 \<or> keyCode e = Some 32
           then record_event PreventDefault (record_event StopPropagation (hideDialog en True s))
           else s)
     else s)"

definition indexPage :: "dstate \<Rightarrow> dstate" where
  "indexPage s = record_event IndexPageCalled s"

definition abortKeyDown :: "env \<Rightarrow> js_event \<Rightarrow> dstate \<Rightarrow> dstate" where
  "abortKeyDown en e s =
    (let s1 = dialogKeyDown en e s
     in if keyCode e = Some 13 \<or> keyCode e = Some 32 then indexPage s1 else s1)"

text \<open>The part of \<open>abortOffer\<close> after its two guards.\<close>

definition abort_show :: "env \<Rightarrow> dstate \<Rightarrow> js_error option \<times> dstate" where
  "abort_show en s =
    (let content = elementById en ''dialogAbort'';
         style = [(''width'', ''40%''), (''left'', ''30%''), (''top'', ''3em'')]
     in case elementById en ''abortOk'' of
          None \<Rightarrow> (Some TypeError, s)
        | Some ok \<Rightarrow>
            (let s1 = addEventListener (Node (El ok)) ''click'' IndexPage True s;
                 s2 = addEventListener (Node (El ok)) ''touchend'' IndexPage True s1;
                 r = showDialog en content None False True style (Some AbortDispose) s2
             in if fst r = None
                then (None, addEventListener Body ''keydown'' AbortKeyDown True (snd r))
                else r))"

text \<open>
  \<open>abortOffer\<close>. The test \<open>isDialogVisible_ || workspace.isDragging()\<close> asks the
  workspace only when no dialog is visible; a page without a workspace makes that
  call a \<open>TypeError\<close>.
\<close>

definition abortOffer :: "env \<Rightarrow> dstate \<Rightarrow> js_error option \<times> dstate" where
  "abortOffer en s =
    (if truthy (levelStored en) then (None, s)
     else if isDialogVisible s then (None, setTimeout AbortOfferTask (15 * 1000) s)
     else (case workspaceDragging en of
             None \<Rightarrow> (Some TypeError, s)
           | Some dragging \<Rightarrow>
               if dragging then (None, setTimeout AbortOfferTask (15 * 1000) s)
               else abort_show en s))"

text \<open>
  A timer that comes due runs its closure; an exception that escapes it is reported
  by the browser and changes nothing further.
\<close>

fun run_task :: "env \<Rightarrow> task \<Rightarrow> dstate \<Rightarrow> dstate" where
  "run_task en (ShowEndResult c) s = show_endResult c s"
| "run_task en HideEndResult s = hide_endResult s"
| "run_task en (BorderChange bBox opacity) s = border_change bBox opacity s"
| "run_task en AbortOfferTask s = snd (abortOffer en s)"

text \<open>The browser fires the pending timer at position \<open>i\<close> of the queue.\<close>

definition fire_timer :: "env \<Rightarrow> nat \<Rightarrow> dstate \<Rightarrow> dstate" where
  "fire_timer en i s =
    (if i < length (timers s)
     then run_task en (snd (timers s ! i)) (s\<lparr>timers := take i (timers s) @ drop (Suc i) (timers s)\<rparr>)
     else s)"

text \<open>
  A listener called with an event. \<open>hideDialog\<close> registered as a listener receives
  the event as \<open>opt_animate\<close>, and an event object is truthy.
\<close>

fun run_handler :: "env \<Rightarrow> handler \<Rightarrow> js_event \<Rightarrow> dstate \<Rightarrow> dstate" where
  "run_handler en HideDialog e s = hideDialog en True s"
| "run_handler en DialogMouseDown e s = dialogMouseDown en e s"
| "run_handler en DialogMouseMove e s = dialogMouseMove en e s"
| "run_handler en DialogUnbindDragEvents e s = dialogUnbindDragEvents s"
| "run_handler en DialogKeyDown e s = dialogKeyDown en e s"
| "run_handler en AbortKeyDown e s = abortKeyDown en e s"
| "run_handler en IndexPage e s = indexPage s"

text \<open>
  An event of a given name arrives at a target: the listeners registered there at
  that moment run in the order of registration, except those that an earlier one has
  removed meanwhile.
\<close>

definition dispatch :: "env \<Rightarrow> target \<Rightarrow> string \<Rightarrow> js_event \<Rightarrow> dstate \<Rightarrow> dstate" where
  "dispatch en t name e s =
    foldl (\<lambda>s' b. if b \<in> set (listeners s') then run_handler en (fst (snd (snd b))) e s' else s')
      s (filter (\<lambda>b. fst b = t \<and> fst (snd b) = name) (listeners s))"


subsection \<open>Reading the trace\<close>

text \<open>The dispose functions called, in order.\<close>

fun invocations :: "event list \<Rightarrow> callback list" where
  "invocations [] = []"
| "invocations (Invoked f # tr) = f # invocations tr"
| "invocations (_ # tr) = invocations tr"

text \<open>
  The drag listeners of the module are exactly what its two wrapper variables hold:
  the listeners on the document are the recorded bindings, mouse-up first.
\<close>

definition drag_bindings :: "dstate \<Rightarrow> binding list" where
  "drag_bindings s =
    (case dialogMouseUpWrapper s of Some b \<Rightarrow> [b] | None \<Rightarrow> []) @
    (case dialogMouseMoveWrapper s of Some b \<Rightarrow> [b] | None \<Rightarrow> [])"

definition drag_inv :: "dstate \<Rightarrow> bool" where
  "drag_inv s = (filter (\<lambda>b. fst b = Document) (listeners s) = drag_bindings s)"

text \<open>
  What the dialog container holds: nothing while no dialog is visible, and otherwise
  the content of one dialog, after the drag header if the dialog is modal.
\<close>

definition one_dialog :: "dstate \<Rightarrow> bool" where
  "one_dialog s =
    (if isDialogVisible s
     then (case dialog_children s of
             [El c] \<Rightarrow> True
           | [Header, El c] \<Rightarrow> True
           | _ \<Rightarrow> False)
     else dialog_children s = [])"

subsection \<open>A page to run the module on\<close>

text \<open>
  Two dialogs wait hidden in the body: element 1 (the abort dialog) holds a cancel
  button 2 marked for wiring and an OK button 3; element 4 (the storage dialog) holds
  a marked primary button 5. Element 9 is a button that dialogs open from.
\<close>

definition example_page :: dstate where
  "example_page = \<lparr>isDialogVisible = False, dialogOrigin = None, dialogDispose = None,
     dialogMouseDownWrapper = None, dialogMouseUpWrapper = None, dialogMouseMoveWrapper = None,
     dialogStartX = 0, dialogStartY = 0,
     dialog_children = [], body_children = [El 1, El 4],
     classes = (\<lambda>n. if n = El 1 \<or> n = El 4 then [''dialogHiddenContent'']
                    else if n = El 2 then [''addHideHandler'']
                    else if n = El 3 then [''secondary'']
                    else if n = El 5 then [''addHideHandler'', ''primary'']
                    else []),
     descendants = (\<lambda>e. if e = 1 then [2, 3] else if e = 4 then [5] else []),
     tagName = (\<lambda>e. if e = 2 \<or> e = 3 \<or> e = 5 \<or> e = 9 then ''button'' else ''div''),
     listeners = [],
     dialog_style = Map.empty, shadow_style = Map.empty, border_style = Map.empty,
     border_className = [], timers = [], trace = []\<rparr>"

definition example_env :: env where
  "example_env = \<lparr>innerWidth = 800, innerHeight = 600,
     geom = (\<lambda>m. \<lparr>offsetLeft = 100, offsetTop = 100, offsetWidth = 300, offsetHeight = 200,
                  pageOffset = (100, 100), svgBBox = None\<rparr>),
     mainWorkspace = True, levelStored = JUndefined, workspaceDragging = Some False,
     elementById = [''dialogAbort'' \<mapsto> 1, ''abortOk'' \<mapsto> 3, ''dialogStorage'' \<mapsto> 4]\<rparr>"

definition mouse_at :: "int \<Rightarrow> int \<Rightarrow> bool \<Rightarrow> js_event" where
  "mouse_at x y right = \<lparr>clientX = x, clientY = y, rightButton = right, keyCode = None\<rparr>"

text \<open>The abort dialog shown modally from button 9, with a dispose function of the caller.\<close>

definition shown_page :: dstate where
  "shown_page =
    snd (showDialog example_env (Some 1) (Some 9) False True [(''width'', ''40%'')]
          (Some (Caller 7)) example_page)"

text \<open>The same page after a left-button mouse-down on the header: a drag is under way.\<close>

definition dragging_page :: dstate where
  "dragging_page = dialogMouseDown example_env (mouse_at 50 50 False) shown_page"

declare wire_buttons.simps [simp del]

declare move_children.simps [simp del]


section \<open>Properties of the turtle field\<close>

lemma indexOf_from_nth:
  "distinct L \<Longrightarrow> i < length L \<Longrightarrow> indexOf_from L (L ! i) k = k + int i"
proof (induction L arbitrary: i k)
  case Nil
  then show ?case by simp
next
  case (Cons x xs)
  show ?case
  proof (cases i)
    case 0
    then show ?thesis by simp
  next
    case (Suc j)
    with Cons.prems have "xs ! j \<in> set xs" "x \<notin> set xs" "distinct xs" "j < length xs" by auto
    then have "x \<noteq> xs ! j" by auto
    with Suc Cons.IH[of j "k + 1"] \<open>distinct xs\<close> \<open>j < length xs\<close> show ?thesis by simp
  qed
qed

lemma indexOf_from_member:
  "s \<in> set L \<Longrightarrow> 0 \<le> k \<Longrightarrow> indexOf_from L s k \<noteq> -1"
proof (induction L arbitrary: k)
  case Nil
  then show ?case by simp
next
  case (Cons x xs)
  then show ?case by (cases "x = s") auto
qed

lemma indexOf_from_absent:
  "s \<notin> set L \<Longrightarrow> indexOf_from L s k = -1"
  by (induction L arbitrary: k) auto

lemma indexOf_minus_one: "(indexOf L v = -1) = (v \<notin> JStr ` set L)"
proof (cases v)
  case (JStr s)
  show ?thesis
  proof (cases "s \<in> set L")
    case True
    with JStr show ?thesis using indexOf_from_member[of s L 0] by auto
  next
    case False
    with JStr show ?thesis using indexOf_from_absent[of s L 0] by auto
  qed
qed auto

lemma arrow_index_mod:
  assumes "distinct L" "i < length L" "dir = -1 \<or> dir = 1"
  shows "arrow_index L (JStr (L ! i)) dir = (int i + dir) mod int (length L)"
proof -
  have idx: "indexOf L (JStr (L ! i)) = int i"
    using indexOf_from_nth[OF assms(1,2), of 0] by simp
  from assms(3) show ?thesis
  proof
    assume "dir = -1"
    then show ?thesis using assms(2) idx
      by (cases "i = 0") (auto simp: arrow_index_def Let_def mod_pos_pos_trivial zmod_minus1)
  next
    assume "dir = 1"
    show ?thesis
    proof (cases "Suc i = length L")
      case True
      then have "int i + 1 = int (length L)" by simp
      then show ?thesis using \<open>dir = 1\<close> idx by (simp add: arrow_index_def Let_def)
    next
      case False
      then show ?thesis using \<open>dir = 1\<close> idx assms(2)
        by (auto simp: arrow_index_def Let_def mod_pos_pos_trivial)
    qed
  qed
qed

subsection \<open>What the validator writes\<close>

lemma set_component_same [simp]: "set_component c (get_component c v) v = v"
  by (cases c) simp_all

lemma get_set_component [simp]:
  "get_component c (set_component c' x v) = (if c = c' then x else get_component c v)"
  by (cases c; cases c') simp_all

text \<open>A block rewrites one property of one object and nothing else.\<close>

lemma validate_component_objects:
  "objects (validate_component c L r f) =
     (objects f)(r := set_component c
        (if eq_undefined (get_component c (objects f r)) then display_component f c
         else if get_component c (objects f r) \<in> JStr ` set L
         then get_component c (objects f r) else JNull)
        (objects f r))"
  by (simp add: validate_component_def set_property_def indexOf_minus_one)

lemma validate_component_frame [simp]:
  "next_ref (validate_component c L r f) = next_ref f"
  "stored_value (validate_component c L r f) = stored_value f"
  "displayValue (validate_component c L r f) = displayValue f"
  "cachedValidatedValue (validate_component c L r f) = cachedValidatedValue f"
  "isDirty (validate_component c L r f) = isDirty f"
  "isValueInvalid (validate_component c L r f) = isValueInvalid f"
  by (simp_all add: validate_component_def set_property_def)

lemma validate_component_display:
  "c' \<noteq> c \<Longrightarrow> display_component (validate_component c L r f) c' = display_component f c'"
  by (simp add: display_component_def validate_component_objects split: option.splits)

lemma validate_component_other:
  "c' \<noteq> c \<Longrightarrow>
     get_component c' (objects (validate_component c L r f) o') = get_component c' (objects f o')"
  by (simp add: validate_component_objects)

lemma doClassValidation_frame [simp]:
  "next_ref (snd (doClassValidation r f)) = next_ref f"
  "stored_value (snd (doClassValidation r f)) = stored_value f"
  "displayValue (snd (doClassValidation r f)) = displayValue f"
  "cachedValidatedValue (snd (doClassValidation r f)) = Some r"
  "isDirty (snd (doClassValidation r f)) = isDirty f"
  "isValueInvalid (snd (doClassValidation r f)) = isValueInvalid f"
  by (simp_all add: doClassValidation_def Let_def)

lemma doClassValidation_others:
  "o' \<noteq> r \<Longrightarrow> objects (snd (doClassValidation r f)) o' = objects f o'"
  by (simp add: doClassValidation_def Let_def validate_component_objects)

lemma doClassValidation_components:
  "pattern (objects (snd (doClassValidation r f)) r) =
     (if eq_undefined (pattern (objects f r)) then display_component f Pattern
      else if pattern (objects f r) \<in> JStr ` set PATTERNS then pattern (objects f r) else JNull)"
  "hat (objects (snd (doClassValidation r f)) r) =
     (if eq_undefined (hat (objects f r)) then display_component f Hat
      else if hat (objects f r) \<in> JStr ` set HATS then hat (objects f r) else JNull)"
  "turtleName (objects (snd (doClassValidation r f)) r) =
     (if eq_undefined (turtleName (objects f r)) then display_component f TurtleName
      else if turtleName (objects f r) \<in> JStr ` set NAMES then turtleName (objects f r)
      else JNull)"
  by (simp_all add: doClassValidation_def Let_def validate_component_objects
      validate_component_display)

lemma doClassValidation_result:
  "fst (doClassValidation r f) =
     (if truthy (pattern (objects (snd (doClassValidation r f)) r)) \<and>
         truthy (hat (objects (snd (doClassValidation r f)) r)) \<and>
         truthy (turtleName (objects (snd (doClassValidation r f)) r))
      then Some r else None)"
  by (simp add: doClassValidation_def Let_def)

lemma setValue_unfold:
  "setValue r f =
     (if fst (doClassValidation r f) = None then doValueInvalid r (snd (doClassValidation r f))
      else doValueUpdate r (snd (doClassValidation r f)))"
  by (simp add: setValue_def doClassValidation_def Let_def)

lemma setValue_frame:
  "objects (setValue r f) = objects (snd (doClassValidation r f))"
  "displayValue (setValue r f) = Some r"
  "next_ref (setValue r f) = next_ref f"
  "stored_value (setValue r f) =
     (if fst (doClassValidation r f) = None then stored_value f else Some r)"
  "isValueInvalid (setValue r f) = (fst (doClassValidation r f) = None)"
  by (simp_all add: setValue_unfold doValueInvalid_def doValueUpdate_def)

subsection \<open>Validation\<close>

text \<open>
  C9 (as amended). \<open>doClassValidation_\<close> writes into the object it is given and into
  no other. The test \<open>== undefined\<close> holds of \<open>undefined\<close> and of \<open>null\<close>: a
  component of the new value that is either of them is replaced by the component of
  the display value (by \<open>undefined\<close> when there is no display value); any other
  component stays if it is in its list (PATTERNS, HATS, NAMES) and becomes \<open>null\<close>
  if not. The validator caches the object and returns \<open>null\<close> exactly when one of
  the rewritten components is falsy, the object otherwise. On \<open>null\<close>, \<open>setValue\<close>
  leaves \<open>value_\<close> referring to the object it held, and the contents of that object
  are as before when it is not the object that was passed in; the passed object is
  displayed as invalid. Otherwise the passed object is stored and displayed.
\<close>

theorem doClassValidation_resolves:
  "(let f' = snd (doClassValidation nv f); old = objects f nv; r = objects f' nv
    in pattern r =
         (if pattern old = JUndefined \<or> pattern old = JNull then display_component f Pattern
          else if pattern old \<in> JStr ` set PATTERNS then pattern old else JNull) \<and>
       hat r =
         (if hat old = JUndefined \<or> hat old = JNull then display_component f Hat
          else if hat old \<in> JStr ` set HATS then hat old else JNull) \<and>
       turtleName r =
         (if turtleName old = JUndefined \<or> turtleName old = JNull
          then display_component f TurtleName
          else if turtleName old \<in> JStr ` set NAMES then turtleName old else JNull) \<and>
       (\<forall>v. v \<noteq> nv \<longrightarrow> objects f' v = objects f v) \<and>
       fst (doClassValidation nv f) =
         (if truthy (pattern r) \<and> truthy (hat r) \<and> truthy (turtleName r)
          then Some nv else None) \<and>
       cachedValidatedValue f' = Some nv \<and>
       objects (setValue nv f) = objects f' \<and>
       (fst (doClassValidation nv f) = None \<longrightarrow>
          stored_value (setValue nv f) = stored_value f \<and>
          (\<forall>v. stored_value f = Some v \<and> v \<noteq> nv \<longrightarrow>
             objects (setValue nv f) v = objects f v) \<and>
          displayValue (setValue nv f) = Some nv \<and> isValueInvalid (setValue nv f)) \<and>
       (fst (doClassValidation nv f) \<noteq> None \<longrightarrow>
          stored_value (setValue nv f) = Some nv \<and>
          displayValue (setValue nv f) = Some nv \<and> \<not> isValueInvalid (setValue nv f)))"
proof -
  have u: "\<And>x. eq_undefined x = (x = JUndefined \<or> x = JNull)"
    by (case_tac x) simp_all
  have comps:
    "pattern (objects (snd (doClassValidation nv f)) nv) =
       (if pattern (objects f nv) = JUndefined \<or> pattern (objects f nv) = JNull
        then display_component f Pattern
        else if pattern (objects f nv) \<in> JStr ` set PATTERNS then pattern (objects f nv)
        else JNull)"
    "hat (objects (snd (doClassValidation nv f)) nv) =
       (if hat (objects f nv) = JUndefined \<or> hat (objects f nv) = JNull
        then display_component f Hat
        else if hat (objects f nv) \<in> JStr ` set HATS then hat (objects f nv) else JNull)"
    "turtleName (objects (snd (doClassValidation nv f)) nv) =
       (if turtleName (objects f nv) = JUndefined \<or> turtleName (objects f nv) = JNull
        then display_component f TurtleName
        else if turtleName (objects f nv) \<in> JStr ` set NAMES then turtleName (objects f nv)
        else JNull)"
    by (simp_all only: doClassValidation_components u)
  have rest:
    "fst (doClassValidation nv f) =
       (if truthy (pattern (objects (snd (doClassValidation nv f)) nv)) \<and>
           truthy (hat (objects (snd (doClassValidation nv f)) nv)) \<and>
           truthy (turtleName (objects (snd (doClassValidation nv f)) nv))
        then Some nv else None)"
    by (rule doClassValidation_result)
  show ?thesis
    unfolding Let_def
    apply (intro conjI)
            apply (rule comps(1))
           apply (rule comps(2))
          apply (rule comps(3))
         apply (simp add: doClassValidation_others)
        apply (rule rest)
       apply simp
      apply (rule setValue_frame(1))
     apply (simp add: setValue_frame doClassValidation_others)
    apply (simp add: setValue_frame)
    done
qed

theorem doClassValidation_resolves_witness:
  "fst (doClassValidation 2 example_turtle) = None \<and>
   stored_value (setValue 2 example_turtle) = Some 0 \<and>
   objects (setValue 2 example_turtle) 0 = objects example_turtle 0 \<and>
   displayValue (setValue 2 example_turtle) = Some 2 \<and>
   objects (setValue 2 example_turtle) 2
     = \<lparr>pattern = JNull, hat = JStr ''Stovepipe'', turtleName = JStr ''Yertle''\<rparr> \<and>
   fst (doClassValidation 3 example_turtle) = Some 3 \<and>
   stored_value (setValue 3 example_turtle) = Some 3 \<and>
   objects (setValue 3 example_turtle) 3
     = \<lparr>pattern = JStr ''Dots'', hat = JStr ''Crown'', turtleName = JStr ''Yertle''\<rparr>"
proof -
  have a: "fst (doClassValidation 2 example_turtle) = None" by code_simp
  have b: "fst (doClassValidation 3 example_turtle) = Some 3" by code_simp
  have c: "stored_value example_turtle = Some 0" by code_simp
  have d: "objects (snd (doClassValidation 2 example_turtle)) 2
              = \<lparr>pattern = JNull, hat = JStr ''Stovepipe'', turtleName = JStr ''Yertle''\<rparr>"
    by code_simp
  have e: "objects (snd (doClassValidation 3 example_turtle)) 3
              = \<lparr>pattern = JStr ''Dots'', hat = JStr ''Crown'', turtleName = JStr ''Yertle''\<rparr>"
    by code_simp
  from doClassValidation_resolves[of 2 example_turtle] a
  have r2: "stored_value (setValue 2 example_turtle) = stored_value example_turtle"
    "\<forall>v. stored_value example_turtle = Some v \<and> v \<noteq> 2 \<longrightarrow>
       objects (setValue 2 example_turtle) v = objects example_turtle v"
    "displayValue (setValue 2 example_turtle) = Some 2"
    "objects (setValue 2 example_turtle) = objects (snd (doClassValidation 2 example_turtle))"
    unfolding Let_def by blast+
  from doClassValidation_resolves[of 3 example_turtle] b
  have r3: "stored_value (setValue 3 example_turtle) = Some 3"
    "objects (setValue 3 example_turtle) = objects (snd (doClassValidation 3 example_turtle))"
    unfolding Let_def by auto
  have k: "objects (setValue 2 example_turtle) 0 = objects example_turtle 0"
    using r2(2) c by simp
  show ?thesis
    using a b c d e k r2(1,3,4) r3 by simp
qed

text \<open>
  C9 as stated fails in two places. A component that is \<open>null\<close> is not \<open>undefined\<close>
  and not in PATTERNS, yet it is not set to \<open>null\<close> but replaced by the displayed
  pattern, and the validator accepts the value (object 1). And a rejected update
  does change the stored value when the object passed in is the one the field holds:
  the caller has written the hat \<open>Bogus\<close> into it, the validator rejects it and
  writes \<open>null\<close> over the hat, in the stored object.
\<close>

theorem validation_counterexample:
  "JNull \<noteq> JUndefined \<and> indexOf PATTERNS JNull = -1 \<and>
   objects example_turtle 1
     = \<lparr>pattern = JNull, hat = JStr ''Crown'', turtleName = JStr ''Yertle''\<rparr> \<and>
   fst (doClassValidation 1 example_turtle) = Some 1 \<and>
   objects (snd (doClassValidation 1 example_turtle)) 1
     = \<lparr>pattern = JStr ''Dots'', hat = JStr ''Crown'', turtleName = JStr ''Yertle''\<rparr> \<and>
   stored_value reused_turtle = Some 0 \<and>
   objects reused_turtle 0
     = \<lparr>pattern = JStr ''Dots'', hat = JStr ''Bogus'', turtleName = JStr ''Yertle''\<rparr> \<and>
   fst (doClassValidation 0 reused_turtle) = None \<and>
   stored_value (setValue 0 reused_turtle) = Some 0 \<and>
   objects (setValue 0 reused_turtle) 0
     = \<lparr>pattern = JStr ''Dots'', hat = JNull, turtleName = JStr ''Yertle''\<rparr>"
  by code_simp

lemma dropdown_arrows_cases:
  "(var, L, dir) \<in> set dropdown_arrows \<Longrightarrow>
     (dir = -1 \<or> dir = 1) \<and> distinct L \<and>
     ((var = Pattern \<and> L = PATTERNS) \<or> (var = Hat \<and> L = HATS) \<or> (var = TurtleName \<and> L = NAMES))"
  by (auto simp: dropdown_arrows_def PATTERNS_def HATS_def NAMES_def)

lemma validated_listed_component:
  assumes "(var = Pattern \<and> L = PATTERNS) \<or> (var = Hat \<and> L = HATS) \<or>
           (var = TurtleName \<and> L = NAMES)"
    and "get_component var (objects f r) = JStr s" and "s \<in> set L"
  shows "get_component var (objects (snd (doClassValidation r f)) r) = JStr s"
  using assms by (auto simp: doClassValidation_components)

subsection \<open>The arrows of the editor\<close>

text \<open>
  C10. For each of the six arrow listeners that \<open>dropdownCreate_\<close> binds (a
  component, its option list \<open>L\<close>, and direction \<open>-1\<close> for the left arrow or \<open>1\<close>
  for the right arrow): when the displayed component is \<open>L[i]\<close>, the listener builds
  a new object with \<open>L[(i + direction) mod |L|]\<close> as that component and hands it to
  \<open>setValue\<close>, after which that object is displayed and its component is still
  \<open>L[(i + direction) mod |L|]\<close>, an element of \<open>L\<close>. So the left arrow at index 0
  gives the last element and the right arrow at the last index gives the first.
\<close>

theorem arrow_listener_wraps:
  assumes "(var, L, dir) \<in> set dropdown_arrows"
    and "displayValue f = Some d"
    and "i < length L"
    and "get_component var (objects f d) = JStr (L ! i)"
  shows "\<exists>f' r. createArrowListener var L dir f = Inr f' \<and>
           r = next_ref f \<and>
           f' = setValue r
                  (f\<lparr>objects := (objects f)(r := arrow_value var L dir (objects f d)),
                     next_ref := Suc r\<rparr>) \<and>
           get_component var (arrow_value var L dir (objects f d))
             = JStr (L ! nat ((int i + dir) mod int (length L))) \<and>
           displayValue f' = Some r \<and>
           get_component var (objects f' r)
             = JStr (L ! nat ((int i + dir) mod int (length L))) \<and>
           get_component var (objects f' r) \<in> JStr ` set L"
proof -
  from dropdown_arrows_cases[OF assms(1)]
  have dir: "dir = -1 \<or> dir = 1" and dist: "distinct L"
    and vl: "(var = Pattern \<and> L = PATTERNS) \<or> (var = Hat \<and> L = HATS) \<or>
             (var = TurtleName \<and> L = NAMES)"
    by auto
  let ?j = "(int i + dir) mod int (length L)"
  let ?r = "next_ref f"
  let ?f1 = "f\<lparr>objects := (objects f)(?r := arrow_value var L dir (objects f d)),
               next_ref := Suc ?r\<rparr>"
  have n: "0 < int (length L)" using assms(3) by (cases L) simp_all
  have j: "0 \<le> ?j" "?j < int (length L)" using n by simp_all
  then have jn: "nat ?j < length L" by simp
  have idx: "arrow_index L (get_component var (objects f d)) dir = ?j"
    using arrow_index_mod[OF dist assms(3) dir] assms(4) by simp
  have at: "array_at L ?j = JStr (L ! nat ?j)"
    using j by (simp add: array_at_def)
  have mem: "L ! nat ?j \<in> set L" using jn by simp
  have av: "arrow_value var L dir (objects f d)
              = set_component var (JStr (L ! nat ?j)) empty_value"
    using idx at by (simp add: arrow_value_def)
  have handed: "get_component var (arrow_value var L dir (objects f d)) = JStr (L ! nat ?j)"
    unfolding av by simp
  have run: "createArrowListener var L dir f = Inr (setValue ?r ?f1)"
    using assms(2) by (simp add: createArrowListener_def Let_def)
  have shown: "displayValue (setValue ?r ?f1) = Some ?r"
    by (rule setValue_frame)
  have built: "get_component var (objects ?f1 ?r) = JStr (L ! nat ?j)"
    using handed by simp
  have kept: "get_component var (objects (setValue ?r ?f1) ?r) = JStr (L ! nat ?j)"
    unfolding setValue_frame(1) by (rule validated_listed_component[OF vl built mem])
  show ?thesis
    using run handed shown kept mem by auto
qed

theorem arrow_listener_wraps_witness:
  "(Pattern, PATTERNS, -1) \<in> set dropdown_arrows \<and>
   (TurtleName, NAMES, 1) \<in> set dropdown_arrows \<and>
   (\<exists>f' r. createArrowListener Pattern PATTERNS (-1) example_turtle = Inr f' \<and>
        displayValue f' = Some r \<and> pattern (objects f' r) = JStr ''Hexagons'') \<and>
   (\<exists>f' r. createArrowListener TurtleName NAMES 1
               (example_turtle\<lparr>objects := (objects example_turtle)
                  (0 := \<lparr>pattern = JStr ''Dots'', hat = JNull, turtleName = JStr ''Oogway''\<rparr>)\<rparr>)
               = Inr f' \<and>
        displayValue f' = Some r \<and> turtleName (objects f' r) = JStr ''Yertle'')"
proof -
  let ?t = "example_turtle\<lparr>objects := (objects example_turtle)
                  (0 := \<lparr>pattern = JStr ''Dots'', hat = JNull, turtleName = JStr ''Oogway''\<rparr>)\<rparr>"
  have a: "(Pattern, PATTERNS, -1) \<in> set dropdown_arrows"
    and b: "(TurtleName, NAMES, 1) \<in> set dropdown_arrows"
    by (simp_all add: dropdown_arrows_def)
  have d0: "displayValue example_turtle = Some 0" by (simp add: example_turtle_def)
  have d1: "displayValue ?t = Some 0" by (simp add: example_turtle_def)
  have i0: "(0::nat) < length PATTERNS" by (simp add: PATTERNS_def)
  have i6: "(6::nat) < length NAMES" by (simp add: NAMES_def)
  have c0: "get_component Pattern (objects example_turtle 0) = JStr (PATTERNS ! 0)"
    by (simp add: example_turtle_def PATTERNS_def)
  have c6: "get_component TurtleName (objects ?t 0) = JStr (NAMES ! 6)"
    by (simp add: NAMES_def)
  from arrow_listener_wraps[OF a d0 i0 c0] obtain f' r where
    "createArrowListener Pattern PATTERNS (-1) example_turtle = Inr f'"
    "displayValue f' = Some r"
    "get_component Pattern (objects f' r)
       = JStr (PATTERNS ! nat ((int 0 + - 1) mod int (length PATTERNS)))"
    by blast
  then have left: "\<exists>f' r. createArrowListener Pattern PATTERNS (-1) example_turtle = Inr f' \<and>
        displayValue f' = Some r \<and> pattern (objects f' r) = JStr ''Hexagons''"
    by (simp add: PATTERNS_def)
  from arrow_listener_wraps[OF b d1 i6 c6] obtain g' q where
    "createArrowListener TurtleName NAMES 1 ?t = Inr g'"
    "displayValue g' = Some q"
    "get_component TurtleName (objects g' q)
       = JStr (NAMES ! nat ((int 6 + 1) mod int (length NAMES)))"
    by blast
  then have right: "\<exists>f' r. createArrowListener TurtleName NAMES 1 ?t = Inr f' \<and>
        displayValue f' = Some r \<and> turtleName (objects f' r) = JStr ''Yertle''"
    by (simp add: NAMES_def)
  show ?thesis using a b left right by blast
qed

section \<open>Properties of the dialog manager\<close>

text \<open>
  Dispose functions of callers are opaque: their call is recorded, and they are taken
  not to call back into the dialog manager.
\<close>

lemmas page_defs =
  record_event_def addEventListener_def removeEventListener_def bind_event_def unbind_def
  classList_add_def classList_remove_def setTimeout_def border_change_def matchBorder_def
  hide_endResult_def remove_header_def stopDialogKeyDown_def append_content_def

lemma invocations_append [simp]: "invocations (xs @ ys) = invocations xs @ invocations ys"
  by (induction xs rule: invocations.induct) simp_all

lemma invocations_map_AppendedToBody [simp]: "invocations (map AppendedToBody ns) = []"
  by (induction ns) simp_all

subsection \<open>What unbinding the drag touches\<close>

lemma dialogUnbindDragEvents_frame [simp]:
  "isDialogVisible (dialogUnbindDragEvents s) = isDialogVisible s"
  "dialogOrigin (dialogUnbindDragEvents s) = dialogOrigin s"
  "dialogDispose (dialogUnbindDragEvents s) = dialogDispose s"
  "dialogMouseDownWrapper (dialogUnbindDragEvents s) = dialogMouseDownWrapper s"
  "dialogMouseUpWrapper (dialogUnbindDragEvents s) = None"
  "dialogMouseMoveWrapper (dialogUnbindDragEvents s) = None"
  "dialog_children (dialogUnbindDragEvents s) = dialog_children s"
  "body_children (dialogUnbindDragEvents s) = body_children s"
  "classes (dialogUnbindDragEvents s) = classes s"
  "dialog_style (dialogUnbindDragEvents s) = dialog_style s"
  "shadow_style (dialogUnbindDragEvents s) = shadow_style s"
  "border_style (dialogUnbindDragEvents s) = border_style s"
  "border_className (dialogUnbindDragEvents s) = border_className s"
  "descendants (dialogUnbindDragEvents s) = descendants s"
  "tagName (dialogUnbindDragEvents s) = tagName s"
  "timers (dialogUnbindDragEvents s) = timers s"
  "trace (dialogUnbindDragEvents s) = trace s"
  by (simp_all add: dialogUnbindDragEvents_def unbind_def Let_def split: option.splits)

lemma invoke_frame [simp]:
  "isDialogVisible (invoke f s) = isDialogVisible s"
  "dialogOrigin (invoke f s) = dialogOrigin s"
  "dialogDispose (invoke f s) = dialogDispose s"
  "dialogMouseDownWrapper (invoke f s) = dialogMouseDownWrapper s"
  "dialogMouseUpWrapper (invoke f s) = dialogMouseUpWrapper s"
  "dialogMouseMoveWrapper (invoke f s) = dialogMouseMoveWrapper s"
  "dialog_children (invoke f s) = dialog_children s"
  "body_children (invoke f s) = body_children s"
  "classes (invoke f s) = classes s"
  "dialog_style (invoke f s) = dialog_style s"
  "shadow_style (invoke f s) = shadow_style s"
  "border_style (invoke f s) = border_style s"
  "border_className (invoke f s) = border_className s"
  "descendants (invoke f s) = descendants s"
  "tagName (invoke f s) = tagName s"
  "timers (invoke f s) = timers s"
  "trace (invoke f s) = trace s @ [Invoked f]"
  by (cases f; simp add: page_defs)+

lemma hide_release_frame [simp]:
  "isDialogVisible (hide_release s) = False"
  "dialogOrigin (hide_release s) = dialogOrigin s"
  "dialogDispose (hide_release s) = None"
  "dialogMouseDownWrapper (hide_release s) = None"
  "dialogMouseUpWrapper (hide_release s) = None"
  "dialogMouseMoveWrapper (hide_release s) = None"
  "dialog_children (hide_release s) = dialog_children s"
  "body_children (hide_release s) = body_children s"
  "classes (hide_release s) = classes s"
  "dialog_style (hide_release s) = dialog_style s"
  "shadow_style (hide_release s) = shadow_style s"
  "border_style (hide_release s) = border_style s"
  "border_className (hide_release s) = border_className s"
  "descendants (hide_release s) = descendants s"
  "tagName (hide_release s) = tagName s"
  "timers (hide_release s) = timers s"
  "trace (hide_release s) = trace s @ (case dialogDispose s of Some f \<Rightarrow> [Invoked f] | None \<Rightarrow> [])"
  by (simp_all add: hide_release_def unbind_def Let_def split: option.splits)

subsection \<open>The loop that empties the dialog container\<close>

lemma move_children_step:
  "dialog_children s = content # rest \<Longrightarrow>
     move_children s =
       move_children
         (record_event (AppendedToBody content)
           ((classList_add content ''dialogHiddenContent'' s)
              \<lparr>dialog_children := rest,
                body_children := removeAll content (body_children s) @ [content]\<rparr>))"
  by (subst move_children.simps) simp

lemma move_children_frame [simp]:
  "isDialogVisible (move_children s) = isDialogVisible s \<and>
   dialogOrigin (move_children s) = dialogOrigin s \<and>
   dialogDispose (move_children s) = dialogDispose s \<and>
   dialogMouseDownWrapper (move_children s) = dialogMouseDownWrapper s \<and>
   dialogMouseUpWrapper (move_children s) = dialogMouseUpWrapper s \<and>
   dialogMouseMoveWrapper (move_children s) = dialogMouseMoveWrapper s \<and>
   listeners (move_children s) = listeners s \<and>
   dialog_style (move_children s) = dialog_style s \<and>
   shadow_style (move_children s) = shadow_style s \<and>
   border_style (move_children s) = border_style s \<and>
   border_className (move_children s) = border_className s \<and>
   descendants (move_children s) = descendants s \<and>
   tagName (move_children s) = tagName s \<and>
   timers (move_children s) = timers s"
proof (induction s rule: move_children.induct)
  case (1 s)
  show ?case
  proof (cases "dialog_children s")
    case Nil
    then show ?thesis by (simp add: move_children.simps)
  next
    case (Cons content rest)
    with 1[OF Cons] show ?thesis
      by (simp add: move_children_step[OF Cons] page_defs)
  qed
qed

lemma move_children_empties [simp]: "dialog_children (move_children s) = []"
proof (induction s rule: move_children.induct)
  case (1 s)
  show ?case
  proof (cases "dialog_children s")
    case Nil
    then show ?thesis by (simp add: move_children.simps)
  next
    case (Cons content rest)
    with 1[OF Cons] show ?thesis
      by (subst move_children.simps) simp
  qed
qed

lemma move_children_trace:
  "trace (move_children s) = trace s @ map AppendedToBody (dialog_children s)"
proof (induction s rule: move_children.induct)
  case (1 s)
  show ?case
  proof (cases "dialog_children s")
    case Nil
    then show ?thesis by (simp add: move_children.simps)
  next
    case (Cons content rest)
    with 1[OF Cons] show ?thesis
      by (subst move_children.simps) (simp add: page_defs)
  qed
qed

lemma move_children_keeps:
  "n \<in> set (body_children s) \<and> ''dialogHiddenContent'' \<in> set (classes s n) \<Longrightarrow>
     n \<in> set (body_children (move_children s)) \<and>
     ''dialogHiddenContent'' \<in> set (classes (move_children s) n)"
proof (induction s rule: move_children.induct)
  case (1 s)
  show ?case
  proof (cases "dialog_children s")
    case Nil
    with 1(2) show ?thesis by (simp add: move_children.simps)
  next
    case (Cons content rest)
    show ?thesis
      apply (subst (1 2) move_children.simps)
      apply (simp add: Cons)
      apply (rule 1(1)[OF Cons])
      using 1(2) apply (auto simp: page_defs has_class_def)
      done
  qed
qed

lemma move_children_moves:
  "n \<in> set (dialog_children s) \<Longrightarrow>
     n \<in> set (body_children (move_children s)) \<and>
     ''dialogHiddenContent'' \<in> set (classes (move_children s) n)"
proof (induction s rule: move_children.induct)
  case (1 s)
  show ?case
  proof (cases "dialog_children s")
    case Nil
    with 1(2) show ?thesis by simp
  next
    case (Cons content rest)
    let ?s' = "record_event (AppendedToBody content)
             ((classList_add content ''dialogHiddenContent'' s)
                \<lparr>dialog_children := rest,
                  body_children := removeAll content (body_children s) @ [content]\<rparr>)"
    have step: "move_children s = move_children ?s'"
      by (subst move_children.simps) (simp add: Cons)
    show ?thesis
    proof (cases "n \<in> set rest")
      case True
      then have "n \<in> set (dialog_children ?s')" by (simp add: page_defs)
      from 1(1)[OF Cons this] show ?thesis by (simp add: step)
    next
      case False
      with 1(2) Cons have "n = content" by simp
      then have "n \<in> set (body_children ?s') \<and> ''dialogHiddenContent'' \<in> set (classes ?s' n)"
        by (auto simp: page_defs has_class_def)
      from move_children_keeps[OF this] show ?thesis by (simp add: step)
    qed
  qed
qed


subsection \<open>The page part of hiding\<close>

lemma remove_header_children:
  "n \<noteq> Header \<Longrightarrow> n \<in> set (dialog_children s) \<Longrightarrow> n \<in> set (dialog_children (remove_header s))"
  by (simp add: page_defs)

lemma hide_page_frame [simp]:
  "isDialogVisible (hide_page en a s) = isDialogVisible s"
  "dialogOrigin (hide_page en a s) = dialogOrigin s"
  "dialogDispose (hide_page en a s) = dialogDispose s"
  "dialogMouseDownWrapper (hide_page en a s) = dialogMouseDownWrapper s"
  "dialogMouseUpWrapper (hide_page en a s) = dialogMouseUpWrapper s"
  "dialogMouseMoveWrapper (hide_page en a s) = dialogMouseMoveWrapper s"
  "listeners (hide_page en a s) = listeners s"
  "dialog_children (hide_page en a s) = []"
  by (simp_all add: hide_page_def Let_def page_defs split: option.splits)

lemma hide_page_dialog_style:
  "dialog_style (hide_page en a s) = (dialog_style s)(''visibility'' \<mapsto> ''hidden'', ''zIndex'' \<mapsto> ''-1'')"
  by (simp add: hide_page_def Let_def page_defs split: option.splits)

lemma hide_page_no_animation:
  "timers (hide_page en False s) = timers s"
  "border_className (hide_page en False s) = border_className s"
  "shadow_style (hide_page en False s) =
     (shadow_style s)(''opacity'' \<mapsto> ''0'', ''zIndex'' \<mapsto> ''-1'', ''visibility'' \<mapsto> ''hidden'')"
  "border_style (hide_page en False s) = (border_style s)(''visibility'' \<mapsto> ''hidden'')"
  by (simp_all add: hide_page_def Let_def page_defs)

lemma hide_page_trace:
  "\<exists>tr. trace (hide_page en a s) = trace s @ tr \<and> invocations tr = []"
proof -
  let ?s3 = "\<lambda>s2. s2\<lparr>dialog_style := (dialog_style s2)(''visibility'' \<mapsto> ''hidden'', ''zIndex'' \<mapsto> ''-1'')\<rparr>"
  have rh: "\<And>t. \<exists>tr. trace (remove_header t) = trace t @ tr \<and> invocations tr = []"
    by (simp add: page_defs)
  have mc: "\<And>t. \<exists>tr. trace (move_children t) = trace t @ tr \<and> invocations tr = []"
    by (simp add: move_children_trace)
  define s2 where "s2 = (case (if a then dialogOrigin s else None) of
                 Some el \<Rightarrow>
                   setTimeout HideEndResult 175
                     (matchBorder en (Some (Page el)) True ''0.2''
                       (matchBorder en (Some Dialog) False ''0.8''
                          (s\<lparr>shadow_style := (shadow_style s)(''opacity'' \<mapsto> ''0'')\<rparr>)))
               | None \<Rightarrow> hide_endResult (s\<lparr>shadow_style := (shadow_style s)(''opacity'' \<mapsto> ''0'')\<rparr>))"
  have t2: "trace s2 = trace s"
    by (simp add: s2_def page_defs Let_def split: option.splits)
  have hp: "hide_page en a s = move_children (remove_header (?s3 s2))"
    by (simp add: hide_page_def s2_def Let_def)
  from rh[of "?s3 s2"] obtain tr1 where
    1: "trace (remove_header (?s3 s2)) = trace s @ tr1" "invocations tr1 = []"
    using t2 by auto
  from mc[of "remove_header (?s3 s2)"] obtain tr2 where
    2: "trace (move_children (remove_header (?s3 s2))) = trace (remove_header (?s3 s2)) @ tr2"
       "invocations tr2 = []"
    by auto
  have "trace (hide_page en a s) = trace s @ (tr1 @ tr2)" "invocations (tr1 @ tr2) = []"
    using 1 2 hp by simp_all
  then show ?thesis by blast
qed

lemma hide_page_moves:
  assumes "n \<noteq> Header" "n \<in> set (dialog_children s)"
  shows "n \<in> set (body_children (hide_page en a s)) \<and>
         ''dialogHiddenContent'' \<in> set (classes (hide_page en a s) n)"
proof -
  define s3 where "s3 = (let origin = (if a then dialogOrigin s else None);
         s1 = s\<lparr>shadow_style := (shadow_style s)(''opacity'' \<mapsto> ''0'')\<rparr>;
         s2 = (case origin of
                 Some el \<Rightarrow>
                   setTimeout HideEndResult 175
                     (matchBorder en (Some (Page el)) True ''0.2''
                       (matchBorder en (Some Dialog) False ''0.8'' s1))
               | None \<Rightarrow> hide_endResult s1)
         in s2\<lparr>dialog_style := (dialog_style s2)(''visibility'' \<mapsto> ''hidden'', ''zIndex'' \<mapsto> ''-1'')\<rparr>)"
  have dc: "dialog_children s3 = dialog_children s"
    by (simp add: s3_def Let_def page_defs split: option.splits)
  have hp: "hide_page en a s = move_children (remove_header s3)"
    by (simp add: hide_page_def s3_def Let_def)
  have "n \<in> set (dialog_children (remove_header s3))"
    using assms dc by (intro remove_header_children) simp_all
  from move_children_moves[OF this] show ?thesis by (simp add: hp)
qed

subsection \<open>hideDialog\<close>

lemma hideDialog_hidden: "\<not> isDialogVisible s \<Longrightarrow> hideDialog en a s = s"
  by (simp add: hideDialog_def)

lemma hideDialog_visible: "isDialogVisible s \<Longrightarrow> hideDialog en a s = hide_page en a (hide_release s)"
  by (simp add: hideDialog_def)

lemma hideDialog_result [simp]:
  "isDialogVisible (hideDialog en a s) = False"
  by (simp add: hideDialog_def)

lemma hideDialog_trace:
  "\<exists>tr. trace (hideDialog en a s) = trace s @ tr \<and>
        invocations tr = (if isDialogVisible s
                          then (case dialogDispose s of Some f \<Rightarrow> [f] | None \<Rightarrow> []) else [])"
proof (cases "isDialogVisible s")
  case False
  then show ?thesis by (simp add: hideDialog_def)
next
  case True
  from hide_page_trace[of en a "hide_release s"] obtain tr where
    "trace (hide_page en a (hide_release s)) = trace (hide_release s) @ tr" "invocations tr = []"
    by blast
  then have "trace (hideDialog en a s)
               = trace s @ ((case dialogDispose s of Some f \<Rightarrow> [Invoked f] | None \<Rightarrow> []) @ tr)"
    "invocations ((case dialogDispose s of Some f \<Rightarrow> [Invoked f] | None \<Rightarrow> []) @ tr)
       = (case dialogDispose s of Some f \<Rightarrow> [f] | None \<Rightarrow> [])"
    using True by (simp_all add: hideDialog_visible split: option.splits)
  then show ?thesis using True by (metis (full_types))
qed

subsection \<open>showDialog\<close>

lemma wire_buttons_step:
  "getElementsByClassName s content ''addHideHandler'' = button # rest \<Longrightarrow>
     wire_buttons content s =
       wire_buttons content
         (classList_remove (El button) ''addHideHandler''
           (addEventListener (Node (El button)) ''touchend'' HideDialog True
             (addEventListener (Node (El button)) ''click'' HideDialog True s)))"
  by (subst wire_buttons.simps) simp

lemma wire_buttons_frame [simp]:
  "isDialogVisible (wire_buttons c s) = isDialogVisible s \<and>
   dialogOrigin (wire_buttons c s) = dialogOrigin s \<and>
   dialogDispose (wire_buttons c s) = dialogDispose s \<and>
   dialogMouseDownWrapper (wire_buttons c s) = dialogMouseDownWrapper s \<and>
   dialogMouseUpWrapper (wire_buttons c s) = dialogMouseUpWrapper s \<and>
   dialogMouseMoveWrapper (wire_buttons c s) = dialogMouseMoveWrapper s \<and>
   dialog_children (wire_buttons c s) = dialog_children s \<and>
   body_children (wire_buttons c s) = body_children s \<and>
   dialog_style (wire_buttons c s) = dialog_style s \<and>
   shadow_style (wire_buttons c s) = shadow_style s \<and>
   border_style (wire_buttons c s) = border_style s \<and>
   border_className (wire_buttons c s) = border_className s \<and>
   descendants (wire_buttons c s) = descendants s \<and>
   tagName (wire_buttons c s) = tagName s \<and>
   timers (wire_buttons c s) = timers s \<and>
   trace (wire_buttons c s) = trace s"
proof (induction c s rule: wire_buttons.induct)
  case (1 content s)
  show ?case
  proof (cases "getElementsByClassName s content ''addHideHandler''")
    case Nil
    then show ?thesis by (simp add: wire_buttons.simps)
  next
    case (Cons button rest)
    with 1[OF Cons] show ?thesis
      by (simp add: wire_buttons_step[OF Cons] page_defs)
  qed
qed

lemma copy_styles_frame [simp]:
  "isDialogVisible (copy_styles st s) = isDialogVisible s \<and>
   dialogOrigin (copy_styles st s) = dialogOrigin s \<and>
   dialogDispose (copy_styles st s) = dialogDispose s \<and>
   dialogMouseDownWrapper (copy_styles st s) = dialogMouseDownWrapper s \<and>
   dialogMouseUpWrapper (copy_styles st s) = dialogMouseUpWrapper s \<and>
   dialogMouseMoveWrapper (copy_styles st s) = dialogMouseMoveWrapper s \<and>
   dialog_children (copy_styles st s) = dialog_children s \<and>
   body_children (copy_styles st s) = body_children s \<and>
   classes (copy_styles st s) = classes s \<and>
   descendants (copy_styles st s) = descendants s \<and>
   tagName (copy_styles st s) = tagName s \<and>
   listeners (copy_styles st s) = listeners s \<and>
   shadow_style (copy_styles st s) = shadow_style s \<and>
   border_style (copy_styles st s) = border_style s \<and>
   timers (copy_styles st s) = timers s \<and>
   trace (copy_styles st s) = trace s"
  by (induction st s rule: copy_styles.induct) simp_all

lemma show_endResult_frame [simp]:
  "isDialogVisible (show_endResult c s) = isDialogVisible s"
  "dialogOrigin (show_endResult c s) = dialogOrigin s"
  "dialogDispose (show_endResult c s) = dialogDispose s"
  "dialog_children (show_endResult c s) = dialog_children s"
  "body_children (show_endResult c s) = body_children s"
  "classes (show_endResult c s) = classes s"
  "listeners (show_endResult c s) = listeners s"
  "timers (show_endResult c s) = timers s"
  by (simp_all add: show_endResult_def Let_def record_event_def split: list.splits)

lemma show_endResult_trace:
  "\<exists>tr. trace (show_endResult c s) = trace s @ tr \<and> invocations tr = []"
  by (simp add: show_endResult_def Let_def record_event_def split: list.splits)

lemma show_endResult_stale: "\<not> isDialogVisible s \<Longrightarrow> show_endResult c s = s"
  by (simp add: show_endResult_def)


lemma show_attach_frame [simp]:
  "isDialogVisible (show_attach en c origin modal style f s) = True"
  "dialogOrigin (show_attach en c origin modal style f s) = origin"
  "dialogDispose (show_attach en c origin modal style f s) = f"
  "timers (show_attach en c origin modal style f s) = timers s"
  "dialog_children (show_attach en c origin modal style f s) =
     removeAll (El c) (dialog_children s @ (if modal then [Header] else [])) @ [El c]"
  "trace (show_attach en c origin modal style f s) =
     trace s @ (if mainWorkspace en then [HideChaff] else []) @
       (if modal then [AppendedToDialog Header] else []) @ [AppendedToDialog (El c)]"
  by (simp_all add: show_attach_def Let_def page_defs)

lemma show_finish_frame [simp]:
  "isDialogVisible (show_finish en c origin animate s) = isDialogVisible s"
  "dialogOrigin (show_finish en c origin animate s) = dialogOrigin s"
  "dialogDispose (show_finish en c origin animate s) = dialogDispose s"
  "dialog_children (show_finish en c origin animate s) = dialog_children s"
  "body_children (show_finish en c origin animate s) = body_children s"
  "classes (show_finish en c origin animate s) = classes s"
  "listeners (show_finish en c origin animate s) = listeners s"
  by (simp_all add: show_finish_def Let_def page_defs split: option.splits)

lemma show_finish_trace:
  "\<exists>tr. trace (show_finish en c origin animate s) = trace s @ tr \<and> invocations tr = []"
proof (cases origin)
  case None
  with show_endResult_trace[of c s] show ?thesis
    by (simp add: show_finish_def)
next
  case (Some el)
  show ?thesis
  proof (cases animate)
    case True
    have "trace (show_finish en c origin animate s) = trace s @ [Blur el]"
      using True Some by (simp add: show_finish_def Let_def page_defs)
    moreover have "invocations [Blur el] = []" by simp
    ultimately show ?thesis by blast
  next
    case False
    from show_endResult_trace[of c "record_event (Blur el) s"] obtain tr where
      "trace (show_endResult c (record_event (Blur el) s)) = trace (record_event (Blur el) s) @ tr"
      "invocations tr = []" by blast
    then have "trace (show_finish en c origin animate s) = trace s @ (Blur el # tr)"
      "invocations (Blur el # tr) = []"
      using False Some by (simp_all add: show_finish_def record_event_def)
    then show ?thesis by blast
  qed
qed

lemma showDialog_content:
  "showDialog en (Some c) origin animate modal style f s =
     (None, show_finish en c origin animate
              (show_attach en c origin modal style f
                 (if isDialogVisible s then hideDialog en False (wire_buttons c s)
                  else wire_buttons c s)))"
  by (simp add: showDialog_def Let_def)

lemma showDialog_result [simp]:
  "isDialogVisible (snd (showDialog en (Some c) origin animate modal style f s))"
  "dialogDispose (snd (showDialog en (Some c) origin animate modal style f s)) = f"
  "dialogOrigin (snd (showDialog en (Some c) origin animate modal style f s)) = origin"
  "El c \<in> set (dialog_children (snd (showDialog en (Some c) origin animate modal style f s)))"
  by (simp_all add: showDialog_content)

lemma dialogMouseMove_start [simp]:
  "dialogStartX (dialogMouseMove en e s) = dialogStartX s"
  "dialogStartY (dialogMouseMove en e s) = dialogStartY s"
  by (simp_all add: dialogMouseMove_def Let_def)

lemma moves_keep_start:
  "dialogStartX (foldl (\<lambda>s' (en', e'). dialogMouseMove en' e' s') s moves) = dialogStartX s \<and>
   dialogStartY (foldl (\<lambda>s' (en', e'). dialogMouseMove en' e' s') s moves) = dialogStartY s"
  by (induction moves arbitrary: s) (auto simp: case_prod_beta)

lemma dialogUnbindDragEvents_start [simp]:
  "dialogStartX (dialogUnbindDragEvents s) = dialogStartX s"
  "dialogStartY (dialogUnbindDragEvents s) = dialogStartY s"
  by (simp_all add: dialogUnbindDragEvents_def unbind_def Let_def split: option.splits)

lemma dialogMouseDown_start:
  "\<not> rightButton e \<Longrightarrow>
     dialogStartX (dialogMouseDown en e s) = offsetLeft (geom en Dialog) - clientX e \<and>
     dialogStartY (dialogMouseDown en e s) = offsetTop (geom en Dialog) - clientY e"
  by (simp add: dialogMouseDown_def Let_def bind_event_def record_event_def)

lemma unbind_drag_clears:
  assumes "drag_inv s"
  shows "filter (\<lambda>b. fst b = Document) (listeners (dialogUnbindDragEvents s)) = []"
  using assms
  by (auto simp: drag_inv_def drag_bindings_def dialogUnbindDragEvents_def unbind_def Let_def
      filter_remove1 split: option.splits)

lemma dispatch_nowhere:
  "filter (\<lambda>b. fst b = t) (listeners s) = [] \<Longrightarrow> dispatch en t name e s = s"
proof -
  assume "filter (\<lambda>b. fst b = t) (listeners s) = []"
  then have "filter (\<lambda>b. fst b = t \<and> fst (snd b) = name) (listeners s) = []"
    by (auto simp: filter_empty_conv)
  then show ?thesis by (simp add: dispatch_def)
qed

lemma moves_nowhere:
  "filter (\<lambda>b. fst b = Document) (listeners s) = [] \<Longrightarrow>
     foldl (\<lambda>s' (en', e'). dispatch en' Document name e' s') s moves = s"
  by (induction moves) (auto simp: dispatch_nowhere)

text \<open>
  During a drag a mouse-move arriving at the document runs \<open>dialogMouseMove_\<close>, once.
\<close>

lemma dispatch_mousemove_dragging:
  assumes "drag_inv s" and "\<not> rightButton down"
  shows "dispatch en Document ''mousemove'' e (dialogMouseDown en_down down s)
           = dialogMouseMove en e (dialogMouseDown en_down down s)"
proof -
  let ?d = "dialogMouseDown en_down down s"
  have docs: "filter (\<lambda>b. fst b = Document) (listeners ?d)
        = [(Document, ''mouseup'', DialogUnbindDragEvents, False),
           (Document, ''mousemove'', DialogMouseMove, False)]"
    using unbind_drag_clears[OF assms(1)] assms(2)
    by (simp add: dialogMouseDown_def Let_def page_defs)
  have "filter (\<lambda>b. fst b = Document \<and> fst (snd b) = ''mousemove'') (listeners ?d)
        = filter (\<lambda>b. fst (snd b) = ''mousemove'') (filter (\<lambda>b. fst b = Document) (listeners ?d))"
    by (simp add: conj_commute)
  also have "\<dots> = [(Document, ''mousemove'', DialogMouseMove, False)]"
    unfolding docs by simp
  finally have f: "filter (\<lambda>b. fst b = Document \<and> fst (snd b) = ''mousemove'') (listeners ?d)
        = [(Document, ''mousemove'', DialogMouseMove, False)]" .
  have "(Document, ''mousemove'', DialogMouseMove, False) \<in> set (filter (\<lambda>b. fst b = Document) (listeners ?d))"
    unfolding docs by simp
  then have m: "(Document, ''mousemove'', DialogMouseMove, False) \<in> set (listeners ?d)"
    by simp
  show ?thesis
    unfolding dispatch_def f using m by simp
qed

subsection \<open>The drag invariant holds on every state the module reaches\<close>

lemma drag_inv_example: "drag_inv example_page"
  by (simp add: drag_inv_def drag_bindings_def example_page_def)

lemma drag_inv_unbind: "drag_inv s \<Longrightarrow> drag_inv (dialogUnbindDragEvents s)"
  using unbind_drag_clears[of s] by (simp add: drag_inv_def drag_bindings_def)

lemma drag_inv_mouseDown: "drag_inv s \<Longrightarrow> drag_inv (dialogMouseDown en e s)"
  using unbind_drag_clears[of s]
  by (simp add: drag_inv_def drag_bindings_def dialogMouseDown_def Let_def page_defs)

lemma drag_inv_mouseMove: "drag_inv s \<Longrightarrow> drag_inv (dialogMouseMove en e s)"
  by (simp add: drag_inv_def drag_bindings_def dialogMouseMove_def Let_def)

lemma filter_removeAll_other:
  "\<not> P x \<Longrightarrow> filter P (removeAll x xs) = filter P xs"
  by (induction xs) auto

lemma invoke_document:
  "filter (\<lambda>b. fst b = Document) (listeners (invoke f s)) = filter (\<lambda>b. fst b = Document) (listeners s)"
  by (cases f) (simp_all add: page_defs filter_removeAll_other)

lemma hide_release_document:
  assumes "drag_inv s"
  shows "filter (\<lambda>b. fst b = Document) (listeners (hide_release s)) = []"
proof -
  have "filter (\<lambda>b. fst b = Document) (listeners (dialogUnbindDragEvents s)) = []"
    using assms by (rule unbind_drag_clears)
  then show ?thesis
    by (simp add: hide_release_def Let_def unbind_def filter_remove1 invoke_document
        split: option.splits)
qed

lemma drag_inv_hideDialog: "drag_inv s \<Longrightarrow> drag_inv (hideDialog en a s)"
  using hide_release_document[of s]
  by (simp add: hideDialog_def drag_inv_def drag_bindings_def)

lemma wire_buttons_document:
  "filter (\<lambda>b. fst b = Document) (listeners (wire_buttons c s))
     = filter (\<lambda>b. fst b = Document) (listeners s)"
proof (induction c s rule: wire_buttons.induct)
  case (1 content s)
  show ?case
  proof (cases "getElementsByClassName s content ''addHideHandler''")
    case Nil
    then show ?thesis by (simp add: wire_buttons.simps)
  next
    case (Cons button rest)
    with 1[OF Cons] show ?thesis
      by (simp add: wire_buttons_step[OF Cons] page_defs)
  qed
qed

lemma drag_inv_wire_buttons: "drag_inv s \<Longrightarrow> drag_inv (wire_buttons c s)"
  by (simp add: drag_inv_def drag_bindings_def wire_buttons_document)

lemma show_attach_document:
  "filter (\<lambda>b. fst b = Document) (listeners (show_attach en c origin modal style f s))
     = filter (\<lambda>b. fst b = Document) (listeners s)"
  "dialogMouseUpWrapper (show_attach en c origin modal style f s) = dialogMouseUpWrapper s"
  "dialogMouseMoveWrapper (show_attach en c origin modal style f s) = dialogMouseMoveWrapper s"
  by (simp_all add: show_attach_def Let_def page_defs)

lemma show_finish_wrappers:
  "dialogMouseUpWrapper (show_finish en c origin animate s) = dialogMouseUpWrapper s"
  "dialogMouseMoveWrapper (show_finish en c origin animate s) = dialogMouseMoveWrapper s"
  by (simp_all add: show_finish_def show_endResult_def Let_def page_defs
      split: option.splits list.splits)

lemma drag_inv_showDialog:
  "drag_inv s \<Longrightarrow> drag_inv (snd (showDialog en content origin animate modal style f s))"
proof (cases content)
  case None
  assume "drag_inv s"
  with None show ?thesis by (simp add: showDialog_def)
next
  case (Some c)
  assume inv: "drag_inv s"
  let ?s2 = "if isDialogVisible s then hideDialog en False (wire_buttons c s) else wire_buttons c s"
  have "drag_inv ?s2"
    using inv by (simp add: drag_inv_wire_buttons drag_inv_hideDialog)
  then show ?thesis
    unfolding Some showDialog_content
    by (simp add: drag_inv_def drag_bindings_def show_attach_document show_finish_wrappers)
qed


lemma drag_inv_keyDown: "drag_inv s \<Longrightarrow> drag_inv (dialogKeyDown en e s)"
  using drag_inv_hideDialog[of s en True]
  by (simp add: dialogKeyDown_def drag_inv_def drag_bindings_def record_event_def)

lemma drag_inv_abortKeyDown: "drag_inv s \<Longrightarrow> drag_inv (abortKeyDown en e s)"
  using drag_inv_keyDown[of s en e]
  by (simp add: abortKeyDown_def Let_def indexPage_def drag_inv_def drag_bindings_def
      record_event_def)

lemma drag_inv_run_handler: "drag_inv s \<Longrightarrow> drag_inv (run_handler en h e s)"
  by (cases h)
     (simp_all add: drag_inv_hideDialog drag_inv_mouseDown drag_inv_mouseMove drag_inv_unbind
        drag_inv_keyDown drag_inv_abortKeyDown,
      simp add: indexPage_def drag_inv_def drag_bindings_def record_event_def)

lemma drag_inv_dispatch: "drag_inv s \<Longrightarrow> drag_inv (dispatch en t name e s)"
proof -
  have "\<And>s. drag_inv s \<Longrightarrow>
          drag_inv (foldl (\<lambda>s' b. if b \<in> set (listeners s')
                                 then run_handler en (fst (snd (snd b))) e s' else s') s bs)" for bs
    by (induction bs) (simp_all add: drag_inv_run_handler)
  then show "drag_inv s \<Longrightarrow> drag_inv (dispatch en t name e s)"
    by (simp add: dispatch_def)
qed

lemma drag_inv_addEventListener:
  "t \<noteq> Document \<Longrightarrow> drag_inv s \<Longrightarrow> drag_inv (addEventListener t name h c s)"
  by (simp add: drag_inv_def drag_bindings_def addEventListener_def)

lemma drag_inv_setTimeout: "drag_inv s \<Longrightarrow> drag_inv (setTimeout t d s)"
  by (simp add: drag_inv_def drag_bindings_def setTimeout_def)

lemma drag_inv_abortOffer: "drag_inv s \<Longrightarrow> drag_inv (snd (abortOffer en s))"
  by (auto simp: abortOffer_def abort_show_def Let_def drag_inv_setTimeout
      drag_inv_addEventListener drag_inv_showDialog split: option.splits)

lemma drag_inv_run_task: "drag_inv s \<Longrightarrow> drag_inv (run_task en t s)"
  by (cases t)
     (simp_all add: drag_inv_abortOffer,
      simp_all add: drag_inv_def drag_bindings_def show_endResult_def hide_endResult_def
        border_change_def Let_def record_event_def split: list.splits)

lemma drag_inv_fire_timer: "drag_inv s \<Longrightarrow> drag_inv (fire_timer en i s)"
proof -
  assume inv: "drag_inv s"
  have "drag_inv (s\<lparr>timers := take i (timers s) @ drop (Suc i) (timers s)\<rparr>)"
    using inv by (simp add: drag_inv_def drag_bindings_def)
  then show ?thesis
    by (simp add: fire_timer_def inv drag_inv_run_task)
qed

subsection \<open>Timers, border and backdrop after a show\<close>

lemma copy_styles_className [simp]:
  "border_className (copy_styles st s) = border_className s"
  by (induction st s rule: copy_styles.induct) simp_all

lemma show_attach_chrome:
  "border_className (show_attach en c origin modal style f s) = border_className s"
  "shadow_style (show_attach en c origin modal style f s) =
     (if modal
      then (shadow_style s)(''visibility'' \<mapsto> ''visible'', ''opacity'' \<mapsto> ''0.3'',
                            ''zIndex'' \<mapsto> ''9'')
      else shadow_style s)"
  by (simp_all add: show_attach_def Let_def page_defs)

lemma show_finish_chrome:
  "shadow_style (show_finish en c origin animate s) = shadow_style s"
  "timers (show_finish en c origin animate s) =
     timers s @ (if animate \<and> origin \<noteq> None
                 then [(1, BorderChange (getBBox en Dialog) ''0.8''), (175, ShowEndResult c)]
                 else [])"
  "border_className (show_finish en c origin animate s) =
     (if animate \<and> origin \<noteq> None then ''dialogAnimate'' else border_className s)"
  by (auto simp: show_finish_def show_endResult_def Let_def page_defs
      split: option.splits list.splits)

subsection \<open>The container holds one dialog\<close>

text \<open>
  Showing and hiding keep the container in step with the flag: empty while no dialog
  is visible, the content of one dialog otherwise.
\<close>

lemma one_dialog_example: "one_dialog example_page"
  by (simp add: one_dialog_def example_page_def)

lemma one_dialog_hideDialog: "one_dialog s \<Longrightarrow> one_dialog (hideDialog en a s)"
  by (cases "isDialogVisible s") (simp_all add: one_dialog_def hideDialog_def)

lemma one_dialog_showDialog:
  "one_dialog s \<Longrightarrow> one_dialog (snd (showDialog en content origin animate modal style f s))"
proof (cases content)
  case None
  assume "one_dialog s"
  with None show ?thesis by (simp add: showDialog_def)
next
  case (Some c)
  assume inv: "one_dialog s"
  have "dialog_children (if isDialogVisible s then hideDialog en False (wire_buttons c s)
                         else wire_buttons c s) = []"
    using inv by (simp add: one_dialog_def hideDialog_def)
  then show ?thesis
    unfolding Some showDialog_content by (simp add: one_dialog_def)
qed

lemma one_dialog_drag:
  "one_dialog s \<Longrightarrow> one_dialog (dialogUnbindDragEvents s)"
  "one_dialog s \<Longrightarrow> one_dialog (dialogMouseDown en e s)"
  "one_dialog s \<Longrightarrow> one_dialog (dialogMouseMove en e s)"
  by (simp_all add: one_dialog_def dialogMouseDown_def dialogMouseMove_def Let_def page_defs)

subsection \<open>One dialog at a time\<close>

text \<open>
  C1. From every state in which a dialog is visible, \<open>showDialog\<close> with content
  \<open>c\<close> returns normally, and the calls it makes are, in order: the forced hide of
  the previous dialog, during which the previous dispose function (if there is one) is
  called exactly once; then the attachment of \<open>c\<close> to the dialog container; then
  no further call of a dispose function. Its result is the new dialog built on the
  state \<open>h\<close> that \<open>hideDialog(false)\<close> leaves: in \<open>h\<close> no dialog is visible, the
  dispose function is cleared, the container is empty and the dialog element and the
  backdrop are hidden. The forced hide runs without animation, as the result of
  \<open>showDialog\<close> itself shows: the only timers added are the two of the new
  dialog's own opening animation (none without it), so no hide completion is
  pending; the class of the animated border is touched by the opening animation only;
  and the backdrop has been hidden at once (a modal dialog then shows it again). At
  the end the container holds the new content only (after the drag header, for a
  modal dialog) and the new dispose function is in place.
\<close>

theorem showDialog_hides_previous:
  assumes "isDialogVisible s"
  shows "\<exists>pre post s'.
      showDialog en (Some c) origin animate modal style disposeFunc s = (None, s') \<and>
      trace s' = trace s @ pre @ [AppendedToDialog (El c)] @ post \<and>
      invocations pre = (case dialogDispose s of Some f \<Rightarrow> [f] | None \<Rightarrow> []) \<and>
      invocations post = [] \<and>
      (let h = hideDialog en False (wire_buttons c s)
       in s' = show_finish en c origin animate
                 (show_attach en c origin modal style disposeFunc h) \<and>
          \<not> isDialogVisible h \<and> dialogDispose h = None \<and> dialog_children h = [] \<and>
          timers h = timers s \<and> border_className h = border_className s \<and>
          shadow_style h ''visibility'' = Some ''hidden'' \<and>
          dialog_style h ''visibility'' = Some ''hidden'') \<and>
      timers s' =
        timers s @ (if animate \<and> origin \<noteq> None
                    then [(1, BorderChange (getBBox en Dialog) ''0.8''), (175, ShowEndResult c)]
                    else []) \<and>
      border_className s' =
        (if animate \<and> origin \<noteq> None then ''dialogAnimate'' else border_className s) \<and>
      shadow_style s' =
        (if modal
         then (shadow_style s)(''opacity'' \<mapsto> ''0.3'', ''zIndex'' \<mapsto> ''9'',
                               ''visibility'' \<mapsto> ''visible'')
         else (shadow_style s)(''opacity'' \<mapsto> ''0'', ''zIndex'' \<mapsto> ''-1'',
                               ''visibility'' \<mapsto> ''hidden'')) \<and>
      isDialogVisible s' \<and> dialogDispose s' = disposeFunc \<and>
      dialog_children s' = (if modal then [Header, El c] else [El c])"
proof -
  let ?s1 = "wire_buttons c s"
  let ?h = "hideDialog en False ?s1"
  let ?a = "show_attach en c origin modal style disposeFunc ?h"
  let ?s' = "show_finish en c origin animate ?a"
  have vis: "isDialogVisible ?s1" using assms by simp
  have run: "showDialog en (Some c) origin animate modal style disposeFunc s = (None, ?s')"
    using assms by (simp add: showDialog_content)
  have hv: "?h = hide_page en False (hide_release ?s1)"
    using vis by (rule hideDialog_visible)
  from hideDialog_trace[of en False ?s1] vis obtain tr1 where
    tr1: "trace ?h = trace s @ tr1"
         "invocations tr1 = (case dialogDispose s of Some f \<Rightarrow> [f] | None \<Rightarrow> [])"
    by auto
  from show_finish_trace[of en c origin animate ?a] obtain post where
    post: "trace ?s' = trace ?a @ post" "invocations post = []"
    by blast
  let ?pre = "tr1 @ (if mainWorkspace en then [HideChaff] else []) @
                (if modal then [AppendedToDialog Header] else [])"
  have t: "trace ?s' = trace s @ ?pre @ [AppendedToDialog (El c)] @ post"
    using tr1(1) post(1) by simp
  have ip: "invocations ?pre = (case dialogDispose s of Some f \<Rightarrow> [f] | None \<Rightarrow> [])"
    using tr1(2) by simp
  have forced: "\<not> isDialogVisible ?h \<and> dialogDispose ?h = None \<and> dialog_children ?h = [] \<and>
          timers ?h = timers s \<and> border_className ?h = border_className s \<and>
          shadow_style ?h ''visibility'' = Some ''hidden'' \<and>
          dialog_style ?h ''visibility'' = Some ''hidden''"
    by (simp add: hv hide_page_no_animation hide_page_dialog_style)
  have sh: "shadow_style ?h =
              (shadow_style s)(''opacity'' \<mapsto> ''0'', ''zIndex'' \<mapsto> ''-1'',
                               ''visibility'' \<mapsto> ''hidden'')"
    by (simp add: hv hide_page_no_animation)
  have tm: "timers ?s' =
        timers s @ (if animate \<and> origin \<noteq> None
                    then [(1, BorderChange (getBBox en Dialog) ''0.8''), (175, ShowEndResult c)]
                    else [])"
    using forced by (auto simp: show_finish_chrome)
  have cn: "border_className ?s' =
        (if animate \<and> origin \<noteq> None then ''dialogAnimate'' else border_className s)"
    using forced by (auto simp: show_finish_chrome show_attach_chrome)
  have sd: "shadow_style ?s' =
        (if modal
         then (shadow_style s)(''opacity'' \<mapsto> ''0.3'', ''zIndex'' \<mapsto> ''9'',
                               ''visibility'' \<mapsto> ''visible'')
         else (shadow_style s)(''opacity'' \<mapsto> ''0'', ''zIndex'' \<mapsto> ''-1'',
                               ''visibility'' \<mapsto> ''hidden''))"
    by (auto simp: show_finish_chrome show_attach_chrome sh fun_eq_iff)
  have fin: "isDialogVisible ?s' \<and> dialogDispose ?s' = disposeFunc \<and>
      dialog_children ?s' = (if modal then [Header, El c] else [El c])"
    using forced by simp
  show ?thesis
    apply (rule exI[of _ ?pre], rule exI[of _ post], rule exI[of _ ?s'])
    unfolding Let_def
    using run t ip post(2) forced tm cn sd fin by blast
qed

theorem showDialog_hides_previous_witness:
  "isDialogVisible shown_page \<and> dialogDispose shown_page = Some (Caller 7) \<and>
   dialogOrigin shown_page = Some 9 \<and> dialog_children shown_page = [Header, El 1] \<and>
   (\<exists>pre post s'.
      showDialog example_env (Some 4) None False True [] None shown_page = (None, s') \<and>
      trace s' = trace shown_page @ pre @ [AppendedToDialog (El 4)] @ post \<and>
      invocations pre = [Caller 7] \<and> invocations post = [] \<and>
      timers s' = timers shown_page \<and> border_className s' = border_className shown_page \<and>
      dialog_children s' = [Header, El 4])"
proof -
  have v: "isDialogVisible shown_page" by code_simp
  have d: "dialogDispose shown_page = Some (Caller 7)" by code_simp
  have g: "dialogOrigin shown_page = Some 9" by code_simp
  have k: "dialog_children shown_page = [Header, El 1]" by code_simp
  from showDialog_hides_previous[OF v, where en = example_env and c = 4 and origin = None
      and animate = False and modal = True and style = "[]" and disposeFunc = None]
  obtain pre post s' where
    "showDialog example_env (Some 4) None False True [] None shown_page = (None, s')"
    "trace s' = trace shown_page @ pre @ [AppendedToDialog (El 4)] @ post"
    "invocations pre = (case dialogDispose shown_page of Some f \<Rightarrow> [f] | None \<Rightarrow> [])"
    "invocations post = []"
    "timers s' = timers shown_page @
       (if False \<and> (None :: elem option) \<noteq> None
        then [(1, BorderChange (getBBox example_env Dialog) ''0.8''), (175, ShowEndResult 4)]
        else [])"
    "border_className s' =
       (if False \<and> (None :: elem option) \<noteq> None then ''dialogAnimate''
        else border_className shown_page)"
    "dialog_children s' = (if True then [Header, El 4] else [El 4])"
    by blast
  then show ?thesis using v d g k by auto
qed

subsection \<open>Missing content\<close>

text \<open>
  C2. \<open>showDialog\<close> with no content throws a \<open>TypeError\<close> and leaves the whole
  state as it was: nothing of the dialog, its backdrop or its border is touched. (In
  the source the test is the first statement, so not even the wiring of marked
  buttons has run.)
\<close>

theorem showDialog_null_content:
  "showDialog en None origin animate modal style disposeFunc s = (Some TypeError, s)"
  by (simp add: showDialog_def)


theorem showDialog_null_content_witness:
  "showDialog example_env None (Some 9) True True [(''width'', ''40%'')] (Some (Caller 7))
     shown_page = (Some TypeError, shown_page)"
  using showDialog_null_content[of example_env "Some 9" True True "[(''width'', ''40%'')]"
      "Some (Caller 7)" shown_page]
  by simp

subsection \<open>Hiding twice\<close>

text \<open>
  C3. \<open>hideDialog\<close> with no dialog visible returns the state unchanged. After a
  \<open>showDialog\<close> with dispose function \<open>f\<close>, the first \<open>hideDialog\<close> calls \<open>f\<close>
  exactly once; at the point where \<open>f\<close> has been called and cleared the dialog
  element still has the style and the children it had (the flag is already false),
  and only then is the dialog element hidden and emptied; the second \<open>hideDialog\<close>
  changes nothing at all.
\<close>

theorem hideDialog_once:
  "(\<not> isDialogVisible s \<longrightarrow> hideDialog en a s = s) \<and>
   (let s1 = snd (showDialog en (Some c) origin animate modal style (Some f) s);
        r = hide_release s1;
        h1 = hideDialog enA aA s1;
        h2 = hideDialog enB aB h1
    in h1 = hide_page enA aA r \<and>
       trace r = trace s1 @ [Invoked f] \<and> dialogDispose r = None \<and>
       dialog_style r = dialog_style s1 \<and> dialog_children r = dialog_children s1 \<and>
       body_children r = body_children s1 \<and>
       dialog_style h1 ''visibility'' = Some ''hidden'' \<and> dialog_children h1 = [] \<and>
       (\<exists>tr. trace h1 = trace s1 @ tr \<and> invocations tr = [f]) \<and>
       dialogDispose h1 = None \<and> \<not> isDialogVisible h1 \<and>
       h2 = h1)"
proof -
  let ?s1 = "snd (showDialog en (Some c) origin animate modal style (Some f) s)"
  have vis: "isDialogVisible ?s1" and disp: "dialogDispose ?s1 = Some f" by simp_all
  have h1: "hideDialog enA aA ?s1 = hide_page enA aA (hide_release ?s1)"
    using vis by (rule hideDialog_visible)
  have tr: "\<exists>tr. trace (hideDialog enA aA ?s1) = trace ?s1 @ tr \<and> invocations tr = [f]"
    using hideDialog_trace[of enA aA ?s1] vis disp by simp
  have again: "hideDialog enB aB (hideDialog enA aA ?s1) = hideDialog enA aA ?s1"
    by (rule hideDialog_hidden) simp
  have rel: "trace (hide_release ?s1) = trace ?s1 @ [Invoked f]"
    using disp by simp
  show ?thesis
    unfolding Let_def
    using tr again rel
    by (simp add: hideDialog_hidden h1 hide_page_dialog_style del: showDialog_result)
qed

theorem hideDialog_once_witness:
  "\<not> isDialogVisible example_page \<and>
   hideDialog example_env True example_page = example_page \<and>
   hideDialog example_env True (hideDialog example_env True shown_page)
     = hideDialog example_env True shown_page \<and>
   invocations (trace (hideDialog example_env True (hideDialog example_env True shown_page)))
     = [Caller 7]"
proof -
  have nv: "\<not> isDialogVisible example_page" by (simp add: example_page_def)
  have "hideDialog example_env True example_page = example_page"
    using nv hideDialog_once[where s = example_page and en = example_env and a = True] by simp
  moreover have "hideDialog example_env True (hideDialog example_env True shown_page)
     = hideDialog example_env True shown_page"
    using hideDialog_once[where s = example_page and en = example_env and c = 1
        and origin = "Some 9" and animate = False and modal = True
        and style = "[(''width'', ''40%'')]" and f = "Caller 7"
        and enA = example_env and aA = True and enB = example_env and aB = True]
    unfolding Let_def shown_page_def[symmetric] by blast
  moreover have "invocations (trace (hideDialog example_env True (hideDialog example_env True shown_page)))
     = [Caller 7]"
    by code_simp
  ultimately show ?thesis using nv by simp
qed


subsection \<open>Deferred completion steps\<close>

text \<open>
  C4 does not hold of the code. The completion step of the show animation tests the
  flag and does nothing when no dialog is visible (\<open>show_endResult_stale\<close>), but the
  completion step of the hide animation tests nothing. On the example page: the
  modal abort dialog is hidden with animation, which schedules the hide completion in
  175 ms; before it is due the modal storage dialog is shown; when the stale
  completion fires, the new dialog is visible and its backdrop is hidden and stacked
  below the page.
\<close>

theorem stale_hide_completion:
  "(let s2 = hideDialog example_env True shown_page;
        s3 = snd (showDialog example_env (Some 4) None False True [] None s2);
        s4 = fire_timer example_env 1 s3
    in timers s2 ! 1 = (175, HideEndResult) \<and>
       timers s3 ! 1 = (175, HideEndResult) \<and>
       isDialogVisible s3 \<and> dialog_children s3 = [Header, El 4] \<and>
       shadow_style s3 ''visibility'' = Some ''visible'' \<and>
       shadow_style s3 ''zIndex'' = Some ''9'' \<and>
       isDialogVisible s4 \<and> dialog_children s4 = [Header, El 4] \<and>
       shadow_style s4 ''visibility'' = Some ''hidden'' \<and>
       shadow_style s4 ''zIndex'' = Some ''-1'')"
  by code_simp


text \<open>
  The completion step of the hide animation hides the backdrop and the border in
  every state, whatever the flag says.
\<close>

lemma hide_endResult_unguarded:
  "shadow_style (run_task en HideEndResult s) ''visibility'' = Some ''hidden'' \<and>
   shadow_style (run_task en HideEndResult s) ''zIndex'' = Some ''-1'' \<and>
   border_style (run_task en HideEndResult s) ''visibility'' = Some ''hidden''"
  by (simp add: hide_endResult_def)

text \<open>
  The test in the completion step of the show animation reads the flag, not the
  session: when the dialog it belongs to has been hidden and another one is being
  opened with animation, the stale step finds the flag true, makes the dialog element
  visible before the new animation ends, hides the border and focuses a button of the
  old content.
\<close>

lemma stale_show_completion:
  "(let s1 = snd (showDialog example_env (Some 1) (Some 9) True False [] None example_page);
        s2 = hideDialog example_env False s1;
        s3 = snd (showDialog example_env (Some 4) (Some 9) True False [] None s2);
        s4 = fire_timer example_env 1 s3
    in timers s3 ! 1 = (175, ShowEndResult 1) \<and>
       dialog_children s3 = [El 4] \<and>
       dialog_style s3 ''visibility'' = Some ''hidden'' \<and>
       border_style s3 ''visibility'' = Some ''visible'' \<and>
       dialog_style s4 ''visibility'' = Some ''visible'' \<and>
       border_style s4 ''visibility'' = Some ''hidden'' \<and>
       trace s4 = trace s3 @ [Focus 3])"
  by code_simp

subsection \<open>Dragging\<close>

text \<open>
  C5. After a mouse-down with a button other than the right one, with the dialog at
  offset \<open>(sx, sy)\<close> and the pointer at \<open>(mx, my)\<close>, and after any number of
  mouse-moves, a mouse-move to \<open>(cx, cy)\<close> sets the left of the dialog to
  \<open>min (max (sx - mx + cx) 0) (innerWidth - offsetWidth)\<close> pixels and its top to
  \<open>min (max (sy - my + cy) 0) (innerHeight - offsetHeight)\<close> pixels: each axis on
  its own, the lower bound first, the upper bound second, with the viewport and the
  size of the dialog as they are at the time of the move.
\<close>

theorem drag_position:
  assumes "\<not> rightButton down"
  shows "(let sx = offsetLeft (geom en_down Dialog); sy = offsetTop (geom en_down Dialog);
              mx = clientX down; my = clientY down; cx = clientX e; cy = clientY e;
              s1 = foldl (\<lambda>s' (en', e'). dialogMouseMove en' e' s')
                     (dialogMouseDown en_down down s) moves;
              s2 = dialogMouseMove en e s1
          in dialog_style s2 ''left'' =
               Some (px (min (max (sx - mx + cx) 0) (innerWidth en - offsetWidth (geom en Dialog)))) \<and>
             dialog_style s2 ''top'' =
               Some (px (min (max (sy - my + cy) 0) (innerHeight en - offsetHeight (geom en Dialog)))))"
  using assms moves_keep_start[of "dialogMouseDown en_down down s" moves]
    dialogMouseDown_start[of down en_down s]
  by (simp add: Let_def dialogMouseMove_def)

theorem drag_position_witness:
  "\<not> rightButton (mouse_at 50 50 False) \<and>
   (let s2 = dialogMouseMove example_env (mouse_at 80 80 False)
               (foldl (\<lambda>s' (en', e'). dialogMouseMove en' e' s')
                  (dialogMouseDown example_env (mouse_at 50 50 False) shown_page)
                  [(example_env, mouse_at 700 20 False)])
    in dialog_style s2 ''left'' = Some ''130px'' \<and> dialog_style s2 ''top'' = Some ''130px'')"
proof -
  have nr: "\<not> rightButton (mouse_at 50 50 False)" by (simp add: mouse_at_def)
  have p: "px 130 = ''130px''" by code_simp
  show ?thesis
    using nr drag_position[OF nr, where en_down = example_env and e = "mouse_at 80 80 False"
        and en = example_env and s = shown_page and moves = "[(example_env, mouse_at 700 20 False)]"]
    by (simp add: mouse_at_def example_env_def Let_def p)
qed


text \<open>
  C6. In a state where the document listeners are those recorded in the two wrapper
  variables, a right-button mouse-down on the header unbinds them and binds nothing:
  both variables are empty, no listener is left on the document, the position of the
  dialog is as before, and any sequence of mouse-moves arriving at the document
  afterwards changes nothing.
\<close>

theorem right_button_never_drags:
  assumes "rightButton e" and "drag_inv s"
  shows "(let s1 = dialogMouseDown en e s;
              s2 = foldl (\<lambda>s' (en', e'). dispatch en' Document ''mousemove'' e' s') s1 moves
          in dialogMouseUpWrapper s1 = None \<and> dialogMouseMoveWrapper s1 = None \<and>
             filter (\<lambda>b. fst b = Document) (listeners s1) = [] \<and>
             dialog_style s1 = dialog_style s \<and>
             s2 = s1 \<and>
             dialog_style s2 ''left'' = dialog_style s ''left'' \<and>
             dialog_style s2 ''top'' = dialog_style s ''top'')"
proof -
  have d: "dialogMouseDown en e s = dialogUnbindDragEvents s"
    using assms(1) by (simp add: dialogMouseDown_def)
  have none: "filter (\<lambda>b. fst b = Document) (listeners (dialogUnbindDragEvents s)) = []"
    using assms(2) by (rule unbind_drag_clears)
  have stay: "foldl (\<lambda>s' (en', e'). dispatch en' Document ''mousemove'' e' s')
                (dialogUnbindDragEvents s) moves = dialogUnbindDragEvents s"
    using none by (rule moves_nowhere)
  show ?thesis
    unfolding Let_def d stay using none by simp
qed

theorem right_button_never_drags_witness:
  "rightButton (mouse_at 60 60 True) \<and> drag_inv dragging_page \<and>
   filter (\<lambda>b. fst b = Document) (listeners dragging_page)
     = [(Document, ''mouseup'', DialogUnbindDragEvents, False),
        (Document, ''mousemove'', DialogMouseMove, False)] \<and>
   (let s1 = dialogMouseDown example_env (mouse_at 60 60 True) dragging_page;
        s2 = foldl (\<lambda>s' (en', e'). dispatch en' Document ''mousemove'' e' s') s1
               [(example_env, mouse_at 80 80 False)]
    in filter (\<lambda>b. fst b = Document) (listeners s1) = [] \<and> s2 = s1 \<and>
       dialog_style s2 ''left'' = dialog_style dragging_page ''left'')"
proof -
  have r: "rightButton (mouse_at 60 60 True)" by (simp add: mouse_at_def)
  have i: "drag_inv dragging_page" by code_simp
  have l: "filter (\<lambda>b. fst b = Document) (listeners dragging_page)
     = [(Document, ''mouseup'', DialogUnbindDragEvents, False),
        (Document, ''mousemove'', DialogMouseMove, False)]" by code_simp
  show ?thesis
    using r i l right_button_never_drags[OF r i, where en = example_env
        and moves = "[(example_env, mouse_at 80 80 False)]"]
    unfolding Let_def by blast
qed


subsection \<open>Show, then hide\<close>

text \<open>
  C7 (as amended). After \<open>showDialog\<close> with content \<open>c\<close> and then
  \<open>hideDialog(false)\<close>, the dialog container has no children, and every node that
  was a child of the container after the show, other than the drag header, is a child
  of the body and carries the class \<open>dialogHiddenContent\<close>; \<open>c\<close> is one of them.
\<close>

theorem show_then_hide_restores:
  "(let s1 = snd (showDialog en (Some c) origin animate modal style f s);
        s2 = hideDialog en' False s1
    in dialog_children s2 = [] \<and>
       El c \<in> set (dialog_children s1) \<and>
       (\<forall>n \<in> set (dialog_children s1). n \<noteq> Header \<longrightarrow>
          n \<in> set (body_children s2) \<and> has_class s2 ''dialogHiddenContent'' n))"
proof -
  let ?s1 = "snd (showDialog en (Some c) origin animate modal style f s)"
  have vis: "isDialogVisible ?s1" by simp
  have h: "hideDialog en' False ?s1 = hide_page en' False (hide_release ?s1)"
    using vis by (rule hideDialog_visible)
  have "\<And>n. n \<in> set (dialog_children ?s1) \<Longrightarrow> n \<noteq> Header \<Longrightarrow>
          n \<in> set (body_children (hide_page en' False (hide_release ?s1))) \<and>
          ''dialogHiddenContent'' \<in> set (classes (hide_page en' False (hide_release ?s1)) n)"
    by (rule hide_page_moves) simp_all
  then show ?thesis
    unfolding Let_def h has_class_def by simp
qed

theorem show_then_hide_restores_witness:
  "(let s2 = hideDialog example_env False shown_page
    in El 1 \<in> set (dialog_children shown_page) \<and> El 1 \<noteq> Header \<and>
       dialog_children s2 = [] \<and> El 1 \<in> set (body_children s2) \<and>
       has_class s2 ''dialogHiddenContent'' (El 1))"
proof -
  have m: "El 1 \<in> set (dialog_children shown_page)" by code_simp
  show ?thesis
    using m show_then_hide_restores[where en = example_env and c = 1 and origin = "Some 9"
        and animate = False and modal = True and style = "[(''width'', ''40%'')]"
        and f = "Some (Caller 7)" and s = example_page and en' = example_env]
    unfolding Let_def shown_page_def[symmetric]
    by auto
qed


text \<open>
  C7 as stated fails for a modal dialog: the drag header is a child of the container
  after the show, and \<open>hideDialog\<close> removes it from the document instead of moving
  it to the body.
\<close>

theorem header_not_restored_counterexample:
  "Header \<in> set (dialog_children shown_page) \<and>
   Header \<notin> set (body_children (hideDialog example_env False shown_page)) \<and>
   \<not> has_class (hideDialog example_env False shown_page) ''dialogHiddenContent'' Header"
  by code_simp


subsection \<open>The abort offer\<close>

text \<open>
  C8. When the stored flag of the level is truthy, \<open>abortOffer\<close> returns and leaves
  the state as it was. When it is falsy and a dialog is visible or the workspace is
  being dragged, \<open>abortOffer\<close> returns having only scheduled itself again in 15000
  ms: nothing else changes, so nothing is shown.
\<close>

theorem abortOffer_guards:
  "(truthy (levelStored en) \<longrightarrow> abortOffer en s = (None, s)) \<and>
   (\<not> truthy (levelStored en) \<and> (isDialogVisible s \<or> workspaceDragging en = Some True) \<longrightarrow>
      abortOffer en s = (None, s\<lparr>timers := timers s @ [(15000, AbortOfferTask)]\<rparr>))"
  by (simp add: abortOffer_def setTimeout_def)


theorem abortOffer_guards_witness:
  "truthy (levelStored (example_env\<lparr>levelStored := JStr ''1''\<rparr>)) \<and>
   abortOffer (example_env\<lparr>levelStored := JStr ''1''\<rparr>) example_page = (None, example_page) \<and>
   \<not> truthy (levelStored example_env) \<and> isDialogVisible shown_page \<and>
   abortOffer example_env shown_page
     = (None, shown_page\<lparr>timers := timers shown_page @ [(15000, AbortOfferTask)]\<rparr>) \<and>
   workspaceDragging (example_env\<lparr>workspaceDragging := Some True\<rparr>) = Some True \<and>
   abortOffer (example_env\<lparr>workspaceDragging := Some True\<rparr>) example_page
     = (None, example_page\<lparr>timers := timers example_page @ [(15000, AbortOfferTask)]\<rparr>)"
proof -
  have v: "isDialogVisible shown_page" by code_simp
  have f: "\<not> truthy (levelStored example_env)" by (simp add: example_env_def)
  show ?thesis
    using v f
      abortOffer_guards[of "example_env\<lparr>levelStored := JStr ''1''\<rparr>" example_page]
      abortOffer_guards[of example_env shown_page]
      abortOffer_guards[of "example_env\<lparr>workspaceDragging := Some True\<rparr>" example_page]
    by simp
qed

end
